theory Spec2Isabelle
  imports Main "HOL-Library.Word" "HOL-Library.Multiset"
begin

unbundle bit_operations_syntax

section \<open>Machine model\<close>

text \<open>
  The allocator of \<^verbatim>\<open>mem_manage.c\<close> is modelled on an LP64 little-endian target:
  \<^verbatim>\<open>size_t\<close> and pointers are 64-bit words, \<^verbatim>\<open>bool\<close> is one byte, and
  \<^verbatim>\<open>struct Block { size_t size; bool is_free; struct Block* next; }\<close> occupies 24 bytes
  with \<^verbatim>\<open>size\<close> at offset 0, \<^verbatim>\<open>is_free\<close> at offset 8 and \<^verbatim>\<open>next\<close> at offset 16.
  Memory is a function from byte addresses to bytes. Byte \<open>k\<close> of an object at pointer
  \<open>p\<close> lives at address \<open>unat p + k\<close>, so an object never wraps around the end of the
  address space; pointer arithmetic itself is 64-bit and wraps as the machine does.
  A flag byte other than 0 reads as \<^verbatim>\<open>true\<close>; \<^verbatim>\<open>memset\<close> is only ever called with
  the value 0; \<^verbatim>\<open>memcpy\<close> reads its source as it was before the call. Console output is
  not modelled.
\<close>

type_synonym size_t = "64 word"
type_synonym ptr = "64 word"
type_synonym byte = "8 word"
type_synonym memory = "nat \<Rightarrow> byte"

primrec load_le :: "memory \<Rightarrow> nat \<Rightarrow> nat \<Rightarrow> 64 word" where
  "load_le m a 0 = 0"
| "load_le m a (Suc n) = ucast (m a) OR push_bit 8 (load_le m (Suc a) n)"

primrec store_le :: "memory \<Rightarrow> nat \<Rightarrow> nat \<Rightarrow> 64 word \<Rightarrow> memory" where
  "store_le m a 0 v = m"
| "store_le m a (Suc n) v = store_le (m(a := ucast v)) (Suc a) n (drop_bit 8 v)"

definition memset_zero :: "memory \<Rightarrow> ptr \<Rightarrow> size_t \<Rightarrow> memory" where
  "memset_zero m p n = (\<lambda>a. if unat p \<le> a \<and> a < unat p + unat n then 0 else m a)"

definition memcpy :: "memory \<Rightarrow> ptr \<Rightarrow> ptr \<Rightarrow> size_t \<Rightarrow> memory" where
  "memcpy m dst src n =
     (\<lambda>a. if unat dst \<le> a \<and> a < unat dst + unat n then m (unat src + (a - unat dst)) else m a)"

section \<open>Allocator state\<close>

definition MAX_HEAP_SIZE :: nat where
  "MAX_HEAP_SIZE = 1024"

definition sizeof_Block :: size_t where
  "sizeof_Block = 24"

definition MIN_BLOCK_SIZE :: size_t where
  "MIN_BLOCK_SIZE = sizeof_Block"

definition ALIGN :: "size_t \<Rightarrow> size_t" where
  "ALIGN sz = (sz + 7) AND NOT 7"

text \<open>
  The file-scope variables. \<open>heap\<close> is the array \<^verbatim>\<open>Block* heap[MAX_HEAP_SIZE]\<close>;
  \<open>heap_count\<close> and all array indices stay below 2050, so they are natural numbers.
  \<open>mem\<close> is the memory the block headers and payloads live in.
\<close>

record mm_state =
  heap_start :: ptr
  heap_size :: size_t
  heap :: "nat \<Rightarrow> ptr"
  heap_count :: nat
  mem :: memory

definition block_size :: "mm_state \<Rightarrow> ptr \<Rightarrow> size_t" where
  "block_size st b = load_le (mem st) (unat b) 8"

definition block_is_free :: "mm_state \<Rightarrow> ptr \<Rightarrow> bool" where
  "block_is_free st b = (mem st (unat b + 8) \<noteq> 0)"

definition set_size :: "ptr \<Rightarrow> size_t \<Rightarrow> mm_state \<Rightarrow> mm_state" where
  "set_size b v st = st\<lparr>mem := store_le (mem st) (unat b) 8 v\<rparr>"

definition set_is_free :: "ptr \<Rightarrow> bool \<Rightarrow> mm_state \<Rightarrow> mm_state" where
  "set_is_free b f st = st\<lparr>mem := (mem st)(unat b + 8 := (if f then 1 else 0))\<rparr>"

definition set_next :: "ptr \<Rightarrow> ptr \<Rightarrow> mm_state \<Rightarrow> mm_state" where
  "set_next b v st = st\<lparr>mem := store_le (mem st) (unat b + 16) 8 v\<rparr>"

definition index_entries :: "mm_state \<Rightarrow> ptr list" where
  "index_entries st = map (heap st) [0..<heap_count st]"

section \<open>The min-heap of free blocks\<close>

definition swap :: "nat \<Rightarrow> nat \<Rightarrow> mm_state \<Rightarrow> mm_state" where
  "swap i j st = st\<lparr>heap := (heap st)(i := heap st j, j := heap st i)\<rparr>"

function heapify_up :: "nat \<Rightarrow> mm_state \<Rightarrow> mm_state" where
  "heapify_up index st =
     (if index > 0 then
        (let parent = (index - 1) div 2 in
         if block_size st (heap st index) < block_size st (heap st parent)
         then heapify_up parent (swap index parent st)
         else st)
      else st)"
  by pat_completeness auto

termination
  by (relation "measure (\<lambda>(index, st). index)") auto

declare heapify_up.simps [simp del]

function heapify_down :: "nat \<Rightarrow> mm_state \<Rightarrow> mm_state" where
  "heapify_down index st =
     (let smallest = index;
          left = 2 * index + 1;
          right = 2 * index + 2;
          smallest = (if left < heap_count st
                         \<and> block_size st (heap st left) < block_size st (heap st smallest)
                      then left else smallest);
          smallest = (if right < heap_count st
                         \<and> block_size st (heap st right) < block_size st (heap st smallest)
                      then right else smallest)
      in if smallest \<noteq> index then heapify_down smallest (swap index smallest st) else st)"
  by pat_completeness auto

termination
  by (relation "measure (\<lambda>(index, st). heap_count st - index)")
     (auto simp: swap_def Let_def split: if_splits)

declare heapify_down.simps [simp del]

definition heap_insert :: "ptr \<Rightarrow> mm_state \<Rightarrow> mm_state" where
  "heap_insert block st =
     (if heap_count st \<ge> MAX_HEAP_SIZE then st
      else
        (let st1 = st\<lparr>heap := (heap st)(heap_count st := block)\<rparr>;
             st2 = heapify_up (heap_count st1) st1
         in st2\<lparr>heap_count := heap_count st2 + 1\<rparr>))"

definition heap_extract_min :: "mm_state \<Rightarrow> ptr \<times> mm_state" where
  "heap_extract_min st =
     (if heap_count st = 0 then (0, st)
      else
        (let min_block = heap st 0;
             st1 = st\<lparr>heap_count := heap_count st - 1\<rparr>;
             st2 = st1\<lparr>heap := (heap st1)(0 := heap st1 (heap_count st1))\<rparr>
         in (min_block, heapify_down 0 st2)))"

section \<open>The allocator operations\<close>

text \<open>
  \<^verbatim>\<open>mm_init\<close> calls \<^verbatim>\<open>sbrk\<close>; the address \<^verbatim>\<open>sbrk\<close> returns is the parameter
  \<open>brk\<close>, with \<open>- 1\<close> for \<^verbatim>\<open>(void*)-1\<close>.
\<close>

definition mm_init :: "size_t \<Rightarrow> ptr \<Rightarrow> mm_state \<Rightarrow> mm_state" where
  "mm_init memory_size brk st =
     (if memory_size < MIN_BLOCK_SIZE then st
      else
        (let st1 = st\<lparr>heap_start := brk\<rparr> in
         if heap_start st1 = - 1 then st1
         else
           (let st2 = st1\<lparr>heap_size := memory_size\<rparr>;
                initial_block = heap_start st2;
                st3 = set_size initial_block (memory_size - sizeof_Block) st2;
                st4 = set_is_free initial_block True st3;
                st5 = set_next initial_block 0 st4
            in heap_insert initial_block st5)))"

definition mm_malloc :: "size_t \<Rightarrow> mm_state \<Rightarrow> ptr \<times> mm_state" where
  "mm_malloc sz0 st =
     (if sz0 = 0 then (0, st)
      else
        (let sz = ALIGN sz0;
             (block, st1) = heap_extract_min st
         in if block = 0 \<or> block_size st1 block < sz then (0, st1)
            else
              (let st2 =
                     (if block_size st1 block \<ge> sz + sizeof_Block + ALIGN 1 then
                        (let new_block = block + sizeof_Block + sz;
                             sa = set_size new_block (block_size st1 block - sz - sizeof_Block) st1;
                             sb = set_is_free new_block True sa;
                             sc = heap_insert new_block sb
                         in set_size block sz sc)
                      else st1);
                   st3 = set_is_free block False st2;
                   st4 = st3\<lparr>mem := memset_zero (mem st3) (block + sizeof_Block) sz\<rparr>
               in (block + sizeof_Block, st4))))"

lemma heap_count_swap: "heap_count (swap i j st) = heap_count st"
  by (simp add: swap_def)

lemma heap_count_heapify_down: "heap_count (heapify_down i st) = heap_count st"
proof (induction i st rule: heapify_down.induct)
  case (1 index st)
  show ?case
    by (subst heapify_down.simps) (simp add: Let_def "1.IH" heap_count_swap)
qed

text \<open>
  The coalescing \<^verbatim>\<open>for\<close> loop of \<^verbatim>\<open>mm_free\<close>, from loop index \<open>i\<close>. After a merge the
  source sets \<^verbatim>\<open>i = -1\<close> and the loop increment makes it 0.
\<close>

function coalesce :: "nat \<Rightarrow> mm_state \<Rightarrow> mm_state" where
  "coalesce i st =
     (if i < heap_count st then
        (let current = heap st i in
         if block_is_free st current then
           (let next = current + sizeof_Block + block_size st current in
            if next < heap_start st + heap_size st \<and> block_is_free st next then
              (let st1 = set_size current
                           (block_size st current + (sizeof_Block + block_size st next)) st;
                   st2 = st1\<lparr>heap_count := heap_count st1 - 1\<rparr>;
                   st3 = st2\<lparr>heap := (heap st2)(i := heap st2 (heap_count st2))\<rparr>;
                   st4 = heapify_down i st3
               in coalesce 0 st4)
            else coalesce (i + 1) st)
         else coalesce (i + 1) st)
      else st)"
  by pat_completeness auto

termination
proof (relation "measures [\<lambda>(i, st). heap_count st, \<lambda>(i, st). heap_count st - i]")
  show "wf (measures [\<lambda>(i, st). heap_count st, \<lambda>(i, st). heap_count st - i])"
    by simp
qed (simp_all add: heap_count_heapify_down set_size_def)

declare coalesce.simps [simp del]

definition mm_free :: "ptr \<Rightarrow> mm_state \<Rightarrow> mm_state" where
  "mm_free p st =
     (if p = 0 \<or> p < heap_start st \<or> p \<ge> heap_start st + heap_size st then st
      else
        (let block = p - sizeof_Block;
             st1 = set_is_free block True st;
             st2 = heap_insert block st1
         in coalesce 0 st2))"

definition mm_realloc :: "ptr \<Rightarrow> size_t \<Rightarrow> mm_state \<Rightarrow> ptr \<times> mm_state" where
  "mm_realloc p sz st =
     (if p = 0 then mm_malloc sz st
      else if sz = 0 then (0, mm_free p st)
      else
        (let block = p - sizeof_Block in
         if block_size st block \<ge> sz then (p, st)
         else
           (let (new_ptr, st1) = mm_malloc sz st in
            if new_ptr \<noteq> 0 then
              (let st2 = st1\<lparr>mem := memcpy (mem st1) new_ptr p (block_size st1 block)\<rparr>
               in (new_ptr, mm_free p st2))
            else (new_ptr, st1))))"

definition mm_metadata_size :: size_t where
  "mm_metadata_size = sizeof_Block"


text \<open>The state at program start: every static is zero; the memory is whatever it is.\<close>

definition initial_state :: "memory \<Rightarrow> mm_state" where
  "initial_state m = \<lparr>heap_start = 0, heap_size = 0, heap = (\<lambda>_. 0), heap_count = 0, mem = m\<rparr>"

section \<open>Reading and writing memory\<close>

lemma store_le_other: "x < a \<or> a + n \<le> x \<Longrightarrow> store_le m a n v x = m x"
  by (induction n arbitrary: m a v) auto

lemma load_le_cong: "(\<And>k. k < n \<Longrightarrow> m (a + k) = m' (a + k)) \<Longrightarrow> load_le m a n = load_le m' a n"
proof (induction n arbitrary: a)
  case 0
  then show ?case by simp
next
  case (Suc n)
  have "m a = m' a" using Suc.prems [of 0] by simp
  moreover have "load_le m (Suc a) n = load_le m' (Suc a) n"
    using Suc.prems [of "Suc k" for k] by (intro Suc.IH) simp
  ultimately show ?case by simp
qed

lemma byte_recombine:
  "ucast (ucast (v :: 64 word) :: 8 word) OR push_bit 8 (take_bit k (drop_bit 8 v)) = take_bit (8 + k) v"
  by (rule bit_eqI) (auto simp: bit_simps)

lemma load_store_take: "load_le (store_le m a n v) a n = take_bit (8 * n) v"
proof (induction n arbitrary: m a v)
  case 0
  then show ?case by simp
next
  case (Suc n)
  have "store_le (m(a := ucast v)) (Suc a) n (drop_bit 8 v) a = ucast v"
    by (simp add: store_le_other)
  then show ?case
    by (simp add: Suc.IH byte_recombine)
qed

lemma load_store_same: "load_le (store_le m a 8 v) a 8 = v"
  by (simp add: load_store_take take_bit_word_eq_self)

lemma load_store_disj:
  "a + n \<le> b \<or> b + k \<le> a \<Longrightarrow> load_le (store_le m a n v) b k = load_le m b k"
  by (rule load_le_cong) (auto simp: store_le_other)

lemma load_upd_other: "x < b \<or> b + k \<le> x \<Longrightarrow> load_le (m(x := c)) b k = load_le m b k"
  by (rule load_le_cong) auto

lemma load_le_zero: "(\<And>j. j < k \<Longrightarrow> m (b + j) = 0) \<Longrightarrow> load_le m b k = 0"
proof (induction k arbitrary: b)
  case 0
  then show ?case by simp
next
  case (Suc k)
  have "m b = 0" using Suc.prems [of 0] by simp
  moreover have "load_le m (Suc b) k = 0"
    using Suc.prems [of "Suc j" for j] by (intro Suc.IH) simp
  ultimately show ?case by simp
qed

lemma load_memset_disj:
  "unat p + unat n \<le> b \<or> b + k \<le> unat p \<Longrightarrow> load_le (memset_zero m p n) b k = load_le m b k"
  by (rule load_le_cong) (auto simp: memset_zero_def)

lemma load_memset_inside:
  "unat p \<le> b \<Longrightarrow> b + k \<le> unat p + unat n \<Longrightarrow> load_le (memset_zero m p n) b k = 0"
  by (rule load_le_zero) (auto simp: memset_zero_def)

lemma load_memcpy_disj:
  "unat d + unat n \<le> b \<or> b + k \<le> unat d \<Longrightarrow> load_le (memcpy m d s n) b k = load_le m b k"
  by (rule load_le_cong) (auto simp: memcpy_def)

section \<open>The free-block index under its operations\<close>

lemma swap_frame [simp]:
  "mem (swap i j st) = mem st" "heap_start (swap i j st) = heap_start st"
  "heap_size (swap i j st) = heap_size st" "heap_count (swap i j st) = heap_count st"
  by (simp_all add: swap_def)

lemma block_size_swap [simp]: "block_size (swap i j st) b = block_size st b"
  by (simp add: block_size_def)

lemma heapify_up_frame:
  "mem (heapify_up i st) = mem st \<and> heap_start (heapify_up i st) = heap_start st
   \<and> heap_size (heapify_up i st) = heap_size st \<and> heap_count (heapify_up i st) = heap_count st"
proof (induction i st rule: heapify_up.induct)
  case (1 index st)
  show ?case
    by (subst (1 2 3 4) heapify_up.simps) (simp add: Let_def "1.IH")
qed

lemma heapify_down_frame:
  "mem (heapify_down i st) = mem st \<and> heap_start (heapify_down i st) = heap_start st
   \<and> heap_size (heapify_down i st) = heap_size st \<and> heap_count (heapify_down i st) = heap_count st"
proof (induction i st rule: heapify_down.induct)
  case (1 index st)
  show ?case
    by (subst (1 2 3 4) heapify_down.simps) (simp add: Let_def "1.IH")
qed

lemma mset_swap_entries:
  assumes "i < n" "j < n"
  shows "mset (map (f(i := f j, j := f i)) [0..<n]) = mset (map f [0..<n])"
proof -
  define xs where "xs = map f [0..<n]"
  have len: "i < length xs" "j < length xs"
    using assms by (simp_all add: xs_def)
  have "map (f(i := f j, j := f i)) [0..<n] = xs[i := xs ! j, j := xs ! i]"
    using assms unfolding xs_def by (intro nth_equalityI) (auto simp: nth_list_update)
  moreover have "mset (xs[i := xs ! j, j := xs ! i]) = mset xs"
    by (rule mset_swap [OF len(2) len(1)])
  ultimately show ?thesis
    by (simp only: xs_def)
qed

lemma heapify_up_entries:
  "i < n \<Longrightarrow> mset (map (heap (heapify_up i st)) [0..<n]) = mset (map (heap st) [0..<n])"
proof (induction i st rule: heapify_up.induct)
  case (1 index st)
  show ?case
  proof (cases "index > 0 \<and> block_size st (heap st index) < block_size st (heap st ((index - 1) div 2))")
    case True
    then have lt: "(index - 1) div 2 < n" using "1.prems" by simp
    have "mset (map (heap (heapify_up ((index - 1) div 2) (swap index ((index - 1) div 2) st))) [0..<n])
          = mset (map (heap (swap index ((index - 1) div 2) st)) [0..<n])"
      using True lt by (intro "1.IH") simp_all
    also have "\<dots> = mset (map (heap st) [0..<n])"
      using mset_swap_entries [OF "1.prems" lt, of "heap st"] by (simp add: swap_def)
    finally show ?thesis
      using True by (subst heapify_up.simps) (simp add: Let_def)
  next
    case False
    then show ?thesis
      by (subst heapify_up.simps) (auto simp: Let_def)
  qed
qed

text \<open>The index \<^verbatim>\<open>heapify_down\<close> swaps with, as a function of the state.\<close>

definition smallest_of :: "nat \<Rightarrow> mm_state \<Rightarrow> nat" where
  "smallest_of index st =
     (let smallest = index;
          left = 2 * index + 1;
          right = 2 * index + 2;
          smallest = (if left < heap_count st
                         \<and> block_size st (heap st left) < block_size st (heap st smallest)
                      then left else smallest);
          smallest = (if right < heap_count st
                         \<and> block_size st (heap st right) < block_size st (heap st smallest)
                      then right else smallest)
      in smallest)"

lemma heapify_down_unfold:
  "heapify_down index st =
     (if smallest_of index st \<noteq> index
      then heapify_down (smallest_of index st) (swap index (smallest_of index st) st) else st)"
  by (subst heapify_down.simps) (simp add: smallest_of_def Let_def)

lemma smallest_of_range:
  "smallest_of index st \<noteq> index \<Longrightarrow> index < smallest_of index st \<and> smallest_of index st < heap_count st"
proof -
  let ?l = "2 * index + 1" and ?r = "2 * index + 2"
  assume ne: "smallest_of index st \<noteq> index"
  have "smallest_of index st = index \<or> (smallest_of index st = ?l \<and> ?l < heap_count st)
        \<or> (smallest_of index st = ?r \<and> ?r < heap_count st)"
    unfolding smallest_of_def Let_def
    by (cases "?l < heap_count st \<and> block_size st (heap st ?l) < block_size st (heap st index)")
       (simp_all only: if_True if_False, presburger+)
  with ne show ?thesis by auto
qed

lemma heapify_down_induct [case_names step]:
  assumes "\<And>index st. (smallest_of index st \<noteq> index \<Longrightarrow>
              P (smallest_of index st) (swap index (smallest_of index st) st)) \<Longrightarrow> P index st"
  shows "P i st"
proof (induction i st rule: heapify_down.induct)
  case (1 index st)
  show ?case
  proof (rule assms)
    assume ne: "smallest_of index st \<noteq> index"
    show "P (smallest_of index st) (swap index (smallest_of index st) st)"
      unfolding smallest_of_def Let_def
      by (rule "1.IH" [OF refl refl refl refl refl]) (rule ne [unfolded smallest_of_def Let_def])
  qed
qed

lemma heapify_down_entries:
  "mset (map (heap (heapify_down i st)) [0..<heap_count st]) = mset (map (heap st) [0..<heap_count st])"
proof (induction i st rule: heapify_down_induct)
  case (step index st)
  show ?case
  proof (cases "smallest_of index st = index")
    case True
    then show ?thesis by (subst heapify_down_unfold) simp
  next
    case False
    let ?s = "smallest_of index st"
    from smallest_of_range [OF False] have r: "index < heap_count st" "?s < heap_count st" by auto
    have "mset (map (heap (heapify_down index st)) [0..<heap_count st])
          = mset (map (heap (swap index ?s st)) [0..<heap_count st])"
      using step [OF False] False by (subst heapify_down_unfold) simp
    also have "\<dots> = mset (map (heap st) [0..<heap_count st])"
      using mset_swap_entries [OF r, of "heap st"] by (simp add: swap_def)
    finally show ?thesis .
  qed
qed

lemma index_entries_heapify_down:
  "mset (index_entries (heapify_down i st)) = mset (index_entries st)"
  using heapify_down_entries [of i st] by (simp add: index_entries_def heapify_down_frame)

lemma heap_insert_frame:
  "mem (heap_insert b st) = mem st \<and> heap_start (heap_insert b st) = heap_start st
   \<and> heap_size (heap_insert b st) = heap_size st"
  by (simp add: heap_insert_def Let_def heapify_up_frame)


lemma heap_insert_entries:
  "mset (index_entries (heap_insert b st)) =
     (if heap_count st \<ge> MAX_HEAP_SIZE then mset (index_entries st)
      else add_mset b (mset (index_entries st)))"
proof (cases "heap_count st \<ge> MAX_HEAP_SIZE")
  case True
  then show ?thesis by (simp add: heap_insert_def)
next
  case False
  let ?n = "heap_count st"
  let ?st1 = "st\<lparr>heap := (heap st)(?n := b)\<rparr>"
  have "mset (map (heap (heapify_up ?n ?st1)) [0..<Suc ?n]) = mset (map (heap ?st1) [0..<Suc ?n])"
    by (rule heapify_up_entries) simp
  also have "\<dots> = add_mset b (mset (map (heap st) [0..<?n]))"
    by simp
  finally show ?thesis
    using False by (simp add: heap_insert_def Let_def index_entries_def heapify_up_frame)
qed

lemma heap_extract_min_empty: "heap_count st = 0 \<Longrightarrow> heap_extract_min st = (0, st)"
  by (simp add: heap_extract_min_def)

lemma heap_extract_min_fst: "heap_count st > 0 \<Longrightarrow> fst (heap_extract_min st) = heap st 0"
  by (simp add: heap_extract_min_def Let_def)

lemma heap_extract_min_frame:
  "mem (snd (heap_extract_min st)) = mem st \<and> heap_start (snd (heap_extract_min st)) = heap_start st
   \<and> heap_size (snd (heap_extract_min st)) = heap_size st
   \<and> heap_count (snd (heap_extract_min st)) = heap_count st - 1"
  by (simp add: heap_extract_min_def Let_def heapify_down_frame)

lemma heap_extract_min_entries:
  assumes "heap_count st > 0"
  shows "mset (index_entries (snd (heap_extract_min st))) = mset (index_entries st) - {#heap st 0#}"
proof -
  obtain n where n: "heap_count st = Suc n"
    using assms by (cases "heap_count st") auto
  let ?st2 = "st\<lparr>heap_count := n, heap := (heap st)(0 := heap st n)\<rparr>"
  have "mset (index_entries (heapify_down 0 ?st2)) = mset (index_entries ?st2)"
    by (rule index_entries_heapify_down)
  moreover have "add_mset (heap st 0) (mset (index_entries ?st2)) = mset (index_entries st)"
  proof -
    define xs where "xs = map (heap st) [0..<n]"
    have len: "length xs = n" by (simp add: xs_def)
    have e1: "index_entries st = xs @ [heap st n]"
      using n by (simp add: index_entries_def xs_def)
    have e2: "index_entries ?st2 = xs[0 := heap st n]"
      unfolding xs_def index_entries_def
      by (intro nth_equalityI) (auto simp: nth_list_update simp del: upt_Suc)
    show ?thesis
    proof (cases xs)
      case Nil
      then have "n = 0" using len by simp
      then show ?thesis using Nil e1 e2 by simp
    next
      case (Cons x xs')
      then have "0 < n" using len by auto
      then have "xs ! 0 = heap st 0" by (simp add: xs_def del: upt_Suc)
      then have "x = heap st 0" using Cons by simp
      then show ?thesis using Cons e1 e2 by simp
    qed
  qed
  ultimately have "mset (index_entries (heapify_down 0 ?st2)) = mset (index_entries st) - {#heap st 0#}"
    by (metis add_mset_remove_trivial)
  then show ?thesis
    using n by (simp add: heap_extract_min_def Let_def)
qed

section \<open>\<^verbatim>\<open>mm_init\<close>\<close>

lemma block_size_frame [simp]:
  "block_size (st\<lparr>heap := h\<rparr>) b = block_size st b"
  "block_size (st\<lparr>heap_count := n\<rparr>) b = block_size st b"
  "block_size (st\<lparr>heap_start := p\<rparr>) b = block_size st b"
  "block_size (st\<lparr>heap_size := s\<rparr>) b = block_size st b"
  by (simp_all add: block_size_def)

lemma block_is_free_frame [simp]:
  "block_is_free (st\<lparr>heap := h\<rparr>) b = block_is_free st b"
  "block_is_free (st\<lparr>heap_count := n\<rparr>) b = block_is_free st b"
  "block_is_free (st\<lparr>heap_start := p\<rparr>) b = block_is_free st b"
  "block_is_free (st\<lparr>heap_size := s\<rparr>) b = block_is_free st b"
  by (simp_all add: block_is_free_def)

lemma heapify_up_zero: "heapify_up 0 st = st"
  by (subst heapify_up.simps) simp

lemma heap_insert_empty:
  "heap_count st = 0 \<Longrightarrow> heap_insert b st = st\<lparr>heap := (heap st)(0 := b), heap_count := 1\<rparr>"
  by (simp add: heap_insert_def MAX_HEAP_SIZE_def heapify_up_zero)

lemma mm_init_too_small: "memory_size < sizeof_Block \<Longrightarrow> mm_init memory_size brk st = st"
  by (simp add: mm_init_def MIN_BLOCK_SIZE_def)

lemma mm_init_sbrk_failed:
  "\<not> memory_size < sizeof_Block \<Longrightarrow> mm_init memory_size (- 1) st = st\<lparr>heap_start := - 1\<rparr>"
  by (simp add: mm_init_def MIN_BLOCK_SIZE_def)

lemma mm_init_ok:
  "\<not> memory_size < sizeof_Block \<Longrightarrow> brk \<noteq> - 1 \<Longrightarrow>
   mm_init memory_size brk st =
     heap_insert brk
       (st\<lparr>heap_start := brk, heap_size := memory_size,
           mem := store_le ((store_le (mem st) (unat brk) 8 (memory_size - sizeof_Block))
                              (unat brk + 8 := 1)) (unat brk + 16) 8 0\<rparr>)"
  by (simp add: mm_init_def MIN_BLOCK_SIZE_def Let_def set_size_def set_is_free_def set_next_def)

lemma mm_init_ok_header:
  assumes "\<not> memory_size < sizeof_Block" "brk \<noteq> - 1"
  shows "block_size (mm_init memory_size brk st) brk = memory_size - sizeof_Block"
    and "block_is_free (mm_init memory_size brk st) brk"
    and "heap_start (mm_init memory_size brk st) = brk"
    and "heap_size (mm_init memory_size brk st) = memory_size"
  using assms
  by (simp_all add: mm_init_ok block_size_def block_is_free_def heap_insert_frame
        load_store_disj load_upd_other load_store_same store_le_other)

section \<open>\<^verbatim>\<open>mm_malloc\<close>\<close>

subsection \<open>The cases\<close>

lemma heap_extract_min_nonempty:
  "heap_count st > 0 \<Longrightarrow> heap_extract_min st = (heap st 0, snd (heap_extract_min st))"
  by (simp add: heap_extract_min_def Let_def)

lemma block_size_extract [simp]:
  "block_size (snd (heap_extract_min st)) b = block_size st b"
  by (simp add: block_size_def heap_extract_min_frame)

lemma mm_malloc_zero: "mm_malloc 0 st = (0, st)"
  by (simp add: mm_malloc_def)

lemma mm_malloc_empty: "s \<noteq> 0 \<Longrightarrow> heap_count st = 0 \<Longrightarrow> mm_malloc s st = (0, st)"
  by (simp add: mm_malloc_def heap_extract_min_empty)

lemma mm_malloc_too_small:
  assumes "s \<noteq> 0" "heap_count st > 0" "heap st 0 = 0 \<or> block_size st (heap st 0) < ALIGN s"
  shows "mm_malloc s st = (0, snd (heap_extract_min st))"
  using assms(1,3) unfolding mm_malloc_def
  by (subst heap_extract_min_nonempty [OF assms(2)]) (auto simp: Let_def)

lemma mm_malloc_fits_ptr:
  assumes "s \<noteq> 0" "heap_count st > 0" "heap st 0 \<noteq> 0" "\<not> block_size st (heap st 0) < ALIGN s"
  shows "fst (mm_malloc s st) = heap st 0 + sizeof_Block"
  using assms(1,3,4) unfolding mm_malloc_def
  by (subst heap_extract_min_nonempty [OF assms(2)]) (simp add: Let_def)

lemma mm_malloc_no_split:
  assumes "s \<noteq> 0" "heap_count st > 0" "heap st 0 \<noteq> 0" "\<not> block_size st (heap st 0) < ALIGN s"
    and "\<not> block_size st (heap st 0) \<ge> ALIGN s + sizeof_Block + ALIGN 1"
  shows "snd (mm_malloc s st) =
           (snd (heap_extract_min st))
             \<lparr>mem := memset_zero ((mem st)(unat (heap st 0) + 8 := 0)) (heap st 0 + sizeof_Block) (ALIGN s)\<rparr>"
  using assms(1,3,4,5) unfolding mm_malloc_def
  by (subst heap_extract_min_nonempty [OF assms(2)])
     (simp add: Let_def set_is_free_def heap_extract_min_frame)

lemma mm_malloc_split:
  assumes "s \<noteq> 0" "heap_count st > 0" "heap st 0 \<noteq> 0" "\<not> block_size st (heap st 0) < ALIGN s"
    and "block_size st (heap st 0) \<ge> ALIGN s + sizeof_Block + ALIGN 1"
  shows "snd (mm_malloc s st) =
           (let block = heap st 0;
                new_block = block + sizeof_Block + ALIGN s;
                m1 = (store_le (mem st) (unat new_block) 8 (block_size st block - ALIGN s - sizeof_Block))
                       (unat new_block + 8 := 1);
                sc = heap_insert new_block ((snd (heap_extract_min st))\<lparr>mem := m1\<rparr>)
            in sc\<lparr>mem := memset_zero ((store_le m1 (unat block) 8 (ALIGN s))(unat block + 8 := 0))
                              (block + sizeof_Block) (ALIGN s)\<rparr>)"
  using assms(1,3,4,5) unfolding mm_malloc_def
  by (subst heap_extract_min_nonempty [OF assms(2)])
     (simp add: Let_def set_is_free_def set_size_def heap_extract_min_frame heap_insert_frame)

subsection \<open>Heap order\<close>

text \<open>The order \<^verbatim>\<open>heapify_up\<close> and \<^verbatim>\<open>heapify_down\<close> maintain: no entry is smaller than
  its parent.\<close>

definition heap_ordered :: "mm_state \<Rightarrow> bool" where
  "heap_ordered st =
     (\<forall>i \<in> {1..<heap_count st}. block_size st (heap st ((i - 1) div 2)) \<le> block_size st (heap st i))"

definition index_sizes :: "mm_state \<Rightarrow> size_t list" where
  "index_sizes st = map (block_size st) (index_entries st)"

lemma heap_ordered_root:
  assumes "heap_ordered st"
  shows "i < heap_count st \<Longrightarrow> block_size st (heap st 0) \<le> block_size st (heap st i)"
proof (induction i rule: less_induct)
  case (less i)
  show ?case
  proof (cases "i = 0")
    case True
    then show ?thesis by simp
  next
    case False
    then have "(i - 1) div 2 < i" by simp
    moreover from this less.prems have "(i - 1) div 2 < heap_count st" by simp
    ultimately have "block_size st (heap st 0) \<le> block_size st (heap st ((i - 1) div 2))"
      by (rule less.IH)
    moreover have "block_size st (heap st ((i - 1) div 2)) \<le> block_size st (heap st i)"
      using assms False less.prems by (simp add: heap_ordered_def)
    ultimately show ?thesis by simp
  qed
qed

lemma heap_ordered_Min:
  assumes "heap_ordered st" "heap_count st > 0"
  shows "Min (set (index_sizes st)) = block_size st (heap st 0)"
proof (rule Min_eqI)
  show "finite (set (index_sizes st))" by simp
  show "block_size st (heap st 0) \<in> set (index_sizes st)"
    using assms(2) by (auto simp: index_sizes_def index_entries_def)
  fix y assume "y \<in> set (index_sizes st)"
  then obtain i where "i < heap_count st" "y = block_size st (heap st i)"
    by (auto simp: index_sizes_def index_entries_def)
  then show "block_size st (heap st 0) \<le> y"
    using heap_ordered_root [OF assms(1)] by simp
qed

subsection \<open>Pointer arithmetic without wrap-around\<close>

lemma unat_add_nowrap:
  fixes a b :: "64 word"
  shows "unat a + unat b < 2 ^ 64 \<Longrightarrow> unat (a + b) = unat a + unat b"
  by (simp add: unat_word_ariths)

lemma unat_sizeof_Block [simp]: "unat sizeof_Block = 24"
  by (simp add: sizeof_Block_def)

lemma ALIGN_1 [simp]: "ALIGN 1 = 8"
  by (simp add: ALIGN_def)

lemma unat_payload:
  "unat b + 24 < 2 ^ 64 \<Longrightarrow> unat (b + sizeof_Block) = unat b + 24"
  by (simp add: unat_add_nowrap)

lemma unat_next_block:
  "unat b + 24 + unat sz < 2 ^ 64 \<Longrightarrow> unat (b + sizeof_Block + sz) = unat b + 24 + unat sz"
  by (simp add: unat_add_nowrap)

lemma unat_sub_le:
  fixes a b :: "64 word"
  shows "b \<le> a \<Longrightarrow> unat (a - b) = unat a - unat b"
  by (simp add: unat_sub)

lemma split_threshold:
  assumes "unat sz + 32 < 2 ^ 64"
  shows "(sz + sizeof_Block + ALIGN 1 \<le> bs) = (unat sz + 24 + 8 \<le> unat bs)"
proof -
  have "unat (sz + sizeof_Block + ALIGN 1) = unat sz + 24 + 8"
    using assms by (simp add: unat_add_nowrap)
  then show ?thesis by (simp add: word_le_nat_alt)
qed

lemma remainder_size:
  assumes "unat sz + 24 + 8 \<le> unat bs"
  shows "unat (bs - sz - sizeof_Block) = unat bs - unat sz - 24"
proof -
  have 1: "sz \<le> bs" using assms by (simp add: word_le_nat_alt)
  then have 2: "unat (bs - sz) = unat bs - unat sz" by (rule unat_sub_le)
  have "sizeof_Block \<le> bs - sz" using assms 2 by (simp add: word_le_nat_alt)
  then show ?thesis using 2 by (simp add: unat_sub_le)
qed

subsection \<open>A failed allocation\<close>


subsection \<open>A successful allocation\<close>

text \<open>Only a non-null root block that can hold the request makes \<^verbatim>\<open>mm_malloc\<close> return a
  non-null pointer.\<close>

lemma mm_malloc_nonnull:
  assumes "fst (mm_malloc s st) \<noteq> 0"
  shows "s \<noteq> 0 \<and> 0 < heap_count st \<and> heap st 0 \<noteq> 0 \<and> ALIGN s \<le> block_size st (heap st 0)"
proof -
  have s: "s \<noteq> 0"
    using assms by (auto simp: mm_malloc_zero)
  have cnt: "0 < heap_count st"
    using assms s by (cases "heap_count st = 0") (simp_all add: mm_malloc_empty)
  have "heap st 0 \<noteq> 0 \<and> \<not> block_size st (heap st 0) < ALIGN s"
    using assms mm_malloc_too_small [OF s cnt] by fastforce
  with s cnt show ?thesis
    by (simp add: not_less)
qed

lemma heap_insert_member:
  "heap_count st < MAX_HEAP_SIZE \<Longrightarrow> b \<in> set (index_entries (heap_insert b st))"
proof -
  assume "heap_count st < MAX_HEAP_SIZE"
  then have "mset (index_entries (heap_insert b st)) = add_mset b (mset (index_entries st))"
    by (simp add: heap_insert_entries)
  then have "b \<in># mset (index_entries (heap_insert b st))"
    by simp
  then show ?thesis by simp
qed

lemma index_entries_mem_upd [simp]: "index_entries (st\<lparr>mem := m\<rparr>) = index_entries st"
  by (simp add: index_entries_def)

lemma mm_malloc_fits_mem:
  assumes "s \<noteq> 0" "heap_count st > 0" "heap st 0 \<noteq> 0" "\<not> block_size st (heap st 0) < ALIGN s"
  shows "\<exists>m. mem (snd (mm_malloc s st)) =
               memset_zero (m(unat (heap st 0) + 8 := 0)) (heap st 0 + sizeof_Block) (ALIGN s)"
    and "heap_start (snd (mm_malloc s st)) = heap_start st"
    and "heap_size (snd (mm_malloc s st)) = heap_size st"
proof -
  show "\<exists>m. mem (snd (mm_malloc s st)) =
               memset_zero (m(unat (heap st 0) + 8 := 0)) (heap st 0 + sizeof_Block) (ALIGN s)"
  proof (cases "block_size st (heap st 0) \<ge> ALIGN s + sizeof_Block + ALIGN 1")
    case True
    show ?thesis
      by (simp add: mm_malloc_split [OF assms True] Let_def) blast
  next
    case False
    show ?thesis
      by (simp add: mm_malloc_no_split [OF assms False]) blast
  qed
  show "heap_start (snd (mm_malloc s st)) = heap_start st"
    by (cases "block_size st (heap st 0) \<ge> ALIGN s + sizeof_Block + ALIGN 1")
       (simp_all add: mm_malloc_split [OF assms] mm_malloc_no_split [OF assms] Let_def
          heap_insert_frame heap_extract_min_frame)
  show "heap_size (snd (mm_malloc s st)) = heap_size st"
    by (cases "block_size st (heap st 0) \<ge> ALIGN s + sizeof_Block + ALIGN 1")
       (simp_all add: mm_malloc_split [OF assms] mm_malloc_no_split [OF assms] Let_def
          heap_insert_frame heap_extract_min_frame)
qed

subsection \<open>Single bytes under the block writes\<close>

lemma memset_zero_outside:
  "a < unat p \<or> unat p + unat n \<le> a \<Longrightarrow> memset_zero m p n a = m a"
  by (auto simp: memset_zero_def)

lemma memset_zero_inside:
  "unat p \<le> a \<Longrightarrow> a < unat p + unat n \<Longrightarrow> memset_zero m p n a = 0"
  by (simp add: memset_zero_def)

lemma memcpy_outside:
  "a < unat d \<or> unat d + unat n \<le> a \<Longrightarrow> memcpy m d s n a = m a"
  by (auto simp: memcpy_def)

lemma memcpy_inside:
  "unat d \<le> a \<Longrightarrow> a < unat d + unat n \<Longrightarrow> memcpy m d s n a = m (unat s + (a - unat d))"
  by (simp add: memcpy_def)

section \<open>\<^verbatim>\<open>mm_free\<close>\<close>

subsection \<open>The coalescing loop\<close>

lemma index_entries_remove_at:
  assumes "i < heap_count st"
  shows "set (index_entries (st\<lparr>heap_count := heap_count st - 1,
                                heap := (heap st)(i := heap st (heap_count st - 1))\<rparr>))
         \<subseteq> set (index_entries st)"
proof
  fix e
  assume "e \<in> set (index_entries (st\<lparr>heap_count := heap_count st - 1,
                                heap := (heap st)(i := heap st (heap_count st - 1))\<rparr>))"
  then obtain j where j: "j < heap_count st - 1" "e = ((heap st)(i := heap st (heap_count st - 1))) j"
    by (auto simp: index_entries_def)
  then have "e = heap st j \<or> e = heap st (heap_count st - 1)"
    by (auto split: if_splits)
  moreover have "j < heap_count st" "heap_count st - 1 < heap_count st"
    using j(1) assms by simp_all
  ultimately show "e \<in> set (index_entries st)"
    by (auto simp: index_entries_def)
qed

lemma set_index_entries_heapify_down:
  "set (index_entries (heapify_down i st)) = set (index_entries st)"
  using index_entries_heapify_down [of i st] by (metis set_mset_mset)

text \<open>One merge of the coalescing loop, and the loop unfolded once.\<close>

definition merge_at :: "nat \<Rightarrow> mm_state \<Rightarrow> mm_state" where
  "merge_at i st =
     (let current = heap st i;
          next = current + sizeof_Block + block_size st current;
          st1 = set_size current (block_size st current + (sizeof_Block + block_size st next)) st;
          st2 = st1\<lparr>heap_count := heap_count st1 - 1\<rparr>;
          st3 = st2\<lparr>heap := (heap st2)(i := heap st2 (heap_count st2))\<rparr>
      in heapify_down i st3)"

definition mergeable :: "nat \<Rightarrow> mm_state \<Rightarrow> bool" where
  "mergeable i st =
     (block_is_free st (heap st i)
      \<and> heap st i + sizeof_Block + block_size st (heap st i) < heap_start st + heap_size st
      \<and> block_is_free st (heap st i + sizeof_Block + block_size st (heap st i)))"

lemma coalesce_unfold:
  "coalesce i st =
     (if i < heap_count st then
        (if mergeable i st then coalesce 0 (merge_at i st) else coalesce (i + 1) st)
      else st)"
  by (subst coalesce.simps) (simp add: merge_at_def mergeable_def Let_def)

lemma coalesce_induct [case_names step]:
  assumes "\<And>i st. (i < heap_count st \<Longrightarrow> mergeable i st \<Longrightarrow> P 0 (merge_at i st))
              \<Longrightarrow> (i < heap_count st \<Longrightarrow> \<not> mergeable i st \<Longrightarrow> P (i + 1) st) \<Longrightarrow> P i st"
  shows "P i st"
proof (induction i st rule: coalesce.induct)
  case (1 i st)
  show ?case
  proof (rule assms)
    assume lt: "i < heap_count st" and m: "mergeable i st"
    show "P 0 (merge_at i st)"
      unfolding merge_at_def Let_def
      by (rule "1.IH"(1) [OF lt refl _ refl _ refl refl refl refl])
         (use m in \<open>simp_all add: mergeable_def\<close>)
  next
    assume lt: "i < heap_count st" and m: "\<not> mergeable i st"
    show "P (i + 1) st"
    proof (cases "block_is_free st (heap st i)")
      case True
      with m have "\<not> (heap st i + sizeof_Block + block_size st (heap st i) < heap_start st + heap_size st
                     \<and> block_is_free st (heap st i + sizeof_Block + block_size st (heap st i)))"
        by (simp add: mergeable_def)
      then show ?thesis
        by (intro "1.IH"(2) [OF lt refl True refl])
    next
      case False
      then show ?thesis
        by (intro "1.IH"(3) [OF lt refl])
    qed
  qed
qed

lemma merge_at_frame:
  "heap_start (merge_at i st) = heap_start st" "heap_size (merge_at i st) = heap_size st"
  "heap_count (merge_at i st) = heap_count st - 1"
  by (simp_all add: merge_at_def Let_def heapify_down_frame set_size_def)

lemma merge_at_mem:
  "mem (merge_at i st) =
     store_le (mem st) (unat (heap st i)) 8
       (block_size st (heap st i)
        + (sizeof_Block + block_size st (heap st i + sizeof_Block + block_size st (heap st i))))"
  by (simp add: merge_at_def Let_def heapify_down_frame set_size_def)

lemma merge_at_entries:
  "i < heap_count st \<Longrightarrow> set (index_entries (merge_at i st)) \<subseteq> set (index_entries st)"
proof -
  assume lt: "i < heap_count st"
  let ?st1 = "set_size (heap st i)
      (block_size st (heap st i)
        + (sizeof_Block + block_size st (heap st i + sizeof_Block + block_size st (heap st i)))) st"
  have c: "heap_count ?st1 = heap_count st" "heap ?st1 = heap st"
    by (simp_all add: set_size_def)
  have "set (index_entries (merge_at i st))
        = set (index_entries (?st1\<lparr>heap_count := heap_count ?st1 - 1,
                                   heap := (heap ?st1)(i := heap ?st1 (heap_count ?st1 - 1))\<rparr>))"
    by (simp add: merge_at_def Let_def set_index_entries_heapify_down)
  also have "\<dots> \<subseteq> set (index_entries ?st1)"
    by (rule index_entries_remove_at) (simp add: c lt)
  also have "\<dots> = set (index_entries st)"
    by (simp add: index_entries_def c)
  finally show ?thesis .
qed

lemma coalesce_frame:
  "heap_start (coalesce i st) = heap_start st \<and> heap_size (coalesce i st) = heap_size st"
proof (induction i st rule: coalesce_induct)
  case (step i st)
  then show ?case
    by (subst (1 2) coalesce_unfold) (simp add: merge_at_frame)
qed


lemma coalesce_mem:
  "(\<And>e. e \<in> set (index_entries st) \<Longrightarrow> a < unat e \<or> unat e + 8 \<le> a)
   \<Longrightarrow> mem (coalesce i st) a = mem st a"
proof (induction i st rule: coalesce_induct)
  case (step i st)
  show ?case
  proof (cases "i < heap_count st")
    case False
    then show ?thesis by (subst coalesce_unfold) simp
  next
    case lt: True
    show ?thesis
    proof (cases "mergeable i st")
      case True
      have "heap st i \<in> set (index_entries st)"
        using lt by (auto simp: index_entries_def)
      then have out: "a < unat (heap st i) \<or> unat (heap st i) + 8 \<le> a"
        by (rule step.prems)
      have "mem (coalesce 0 (merge_at i st)) a = mem (merge_at i st) a"
        using merge_at_entries [OF lt] step.prems by (intro step.IH(1) [OF lt True]) auto
      also have "\<dots> = mem st a"
        using out by (simp add: merge_at_mem store_le_other)
      finally show ?thesis
        using lt True by (subst coalesce_unfold) simp
    next
      case False
      then show ?thesis
        using step.IH(2) [OF lt False] step.prems lt by (subst coalesce_unfold) simp
    qed
  qed
qed

section \<open>What \<^verbatim>\<open>mm_malloc\<close> and \<^verbatim>\<open>mm_free\<close> leave untouched\<close>

subsection \<open>Alignment\<close>

lemma and_not_7_decomp:
  fixes x :: "64 word"
  shows "(x AND NOT 7) + (x AND 7) = x"
proof -
  have "(x AND NOT 7) + (x AND 7) = ((x AND NOT 7) AND (x AND 7)) + ((x AND NOT 7) OR (x AND 7))"
    by (simp only: word_plus_and_or)
  also have "(x AND NOT 7) AND (x AND 7) = 0"
    by (rule bit_eqI) (auto simp: bit_simps)
  also have "(x AND NOT 7) OR (x AND 7) = x"
    by (rule bit_eqI) (auto simp: bit_simps)
  finally show ?thesis by simp
qed

lemma unat_ALIGN_ge:
  assumes "unat s + 7 < 2 ^ 64"
  shows "unat s \<le> unat (ALIGN s)"
proof -
  let ?x = "s + 7"
  have ux: "unat ?x = unat s + 7"
    using assms by (simp add: unat_add_nowrap)
  have "?x AND 7 \<le> 7"
    by (rule word_and_le1)
  then have low: "unat (?x AND 7) \<le> 7"
    by (simp add: word_le_nat_alt)
  have "?x AND NOT 7 = ?x - (?x AND 7)"
    using and_not_7_decomp [of ?x] by (metis add_diff_cancel_right')
  moreover have "?x AND 7 \<le> ?x"
    by (rule word_and_le2)
  ultimately have "unat (?x AND NOT 7) = unat ?x - unat (?x AND 7)"
    by (simp add: unat_sub)
  then show ?thesis
    using low ux by (simp add: ALIGN_def)
qed

lemma unat_ALIGN_le:
  assumes "unat s + 7 < 2 ^ 64"
  shows "unat (ALIGN s) \<le> unat s + 7"
proof -
  have "unat ((s + 7) AND NOT 7) \<le> unat (s + 7)"
    using word_and_le2 [of "s + 7" "NOT 7"] by (simp add: word_le_nat_alt)
  then show ?thesis
    using assms by (simp add: ALIGN_def unat_add_nowrap)
qed

subsection \<open>What a successful \<^verbatim>\<open>mm_malloc\<close> writes\<close>

lemma heap_insert_entries_subset:
  "set (index_entries (heap_insert b st)) \<subseteq> insert b (set (index_entries st))"
proof -
  have "set_mset (mset (index_entries (heap_insert b st))) \<subseteq> insert b (set (index_entries st))"
    by (simp only: heap_insert_entries) (auto split: if_splits)
  then show ?thesis by simp
qed

lemma heap_extract_min_entries_subset:
  "set (index_entries (snd (heap_extract_min st))) \<subseteq> set (index_entries st)"
proof (cases "heap_count st > 0")
  case True
  have "set_mset (mset (index_entries (snd (heap_extract_min st)))) \<subseteq> set_mset (mset (index_entries st))"
    by (simp only: heap_extract_min_entries [OF True]) (meson in_diffD subsetI)
  then show ?thesis by simp
next
  case False
  then show ?thesis by (simp add: heap_extract_min_empty)
qed

lemma mm_malloc_fits_entries:
  assumes "s \<noteq> 0" "heap_count st > 0" "heap st 0 \<noteq> 0" "\<not> block_size st (heap st 0) < ALIGN s"
    and "e \<in> set (index_entries (snd (mm_malloc s st)))"
  shows "e \<in> set (index_entries st)
         \<or> (e = heap st 0 + sizeof_Block + ALIGN s
             \<and> ALIGN s + sizeof_Block + ALIGN 1 \<le> block_size st (heap st 0))"
proof (cases "ALIGN s + sizeof_Block + ALIGN 1 \<le> block_size st (heap st 0)")
  case True
  have "e \<in> insert (heap st 0 + sizeof_Block + ALIGN s) (set (index_entries (snd (heap_extract_min st))))"
    using assms(5) heap_insert_entries_subset
    by (simp add: mm_malloc_split [OF assms(1-4) True] Let_def) fastforce
  then show ?thesis
    using True heap_extract_min_entries_subset [of st] by auto
next
  case False
  have "e \<in> set (index_entries (snd (heap_extract_min st)))"
    using assms(5) by (simp add: mm_malloc_no_split [OF assms(1-4) False])
  then show ?thesis
    using heap_extract_min_entries_subset [of st] by auto
qed

lemma mm_malloc_fits_mem_outside:
  assumes "s \<noteq> 0" "heap_count st > 0" "heap st 0 \<noteq> 0" "\<not> block_size st (heap st 0) < ALIGN s"
    and space: "unat (heap st 0) + 24 + unat (block_size st (heap st 0)) < 2 ^ 64"
    and thr: "unat (ALIGN s) + 32 < 2 ^ 64"
    and out: "a < unat (heap st 0) \<or> unat (heap st 0) + 24 + unat (block_size st (heap st 0)) \<le> a"
  shows "mem (snd (mm_malloc s st)) a = mem st a"
proof -
  let ?b = "heap st 0" and ?sz = "ALIGN s"
  let ?bs = "block_size st ?b"
  have fits: "unat ?sz \<le> unat ?bs"
    using assms(4) by (simp add: word_less_nat_alt)
  have pay: "unat (?b + sizeof_Block) = unat ?b + 24"
    using space by (simp add: unat_payload)
  show ?thesis
  proof (cases "?sz + sizeof_Block + ALIGN 1 \<le> ?bs")
    case True
    then have big: "unat ?sz + 24 + 8 \<le> unat ?bs"
      using split_threshold [OF thr, of ?bs] by simp
    have nb: "unat (?b + sizeof_Block + ?sz) = unat ?b + 24 + unat ?sz"
      using space big by (simp add: unat_next_block)
    have "memset_zero m (?b + sizeof_Block) ?sz a = m a" for m
      using out big by (intro memset_zero_outside) (auto simp: pay)
    moreover have "store_le m (unat ?b) 8 v a = m a" for m v
      using out by (intro store_le_other) auto
    moreover have "store_le m (unat ?b + 24 + unat ?sz) 8 v a = m a" for m v
      using out big by (intro store_le_other) auto
    moreover have "a \<noteq> unat ?b + 8" "a \<noteq> unat ?b + 24 + unat ?sz + 8"
      using out big by auto
    ultimately show ?thesis
      by (simp add: mm_malloc_split [OF assms(1-4) True] Let_def nb)
  next
    case False
    have "memset_zero m (?b + sizeof_Block) ?sz a = m a" for m
      using out fits by (intro memset_zero_outside) (auto simp: pay)
    moreover have "a \<noteq> unat ?b + 8"
      using out by auto
    ultimately show ?thesis
      by (simp add: mm_malloc_no_split [OF assms(1-4) False])
  qed
qed

text \<open>The payload size of the returned block, and the bytes behind the request when the
  block is not split.\<close>

lemma mm_malloc_split_size:
  assumes "s \<noteq> 0" "heap_count st > 0" "heap st 0 \<noteq> 0" "\<not> block_size st (heap st 0) < ALIGN s"
    and "block_size st (heap st 0) \<ge> ALIGN s + sizeof_Block + ALIGN 1"
    and pay: "unat (heap st 0 + sizeof_Block) = unat (heap st 0) + 24"
  shows "block_size (snd (mm_malloc s st)) (heap st 0) = ALIGN s"
  by (simp add: mm_malloc_split [OF assms(1-5)] Let_def block_size_def pay load_memset_disj
        load_upd_other load_store_same)

lemma mm_malloc_no_split_size:
  assumes "s \<noteq> 0" "heap_count st > 0" "heap st 0 \<noteq> 0" "\<not> block_size st (heap st 0) < ALIGN s"
    and "\<not> block_size st (heap st 0) \<ge> ALIGN s + sizeof_Block + ALIGN 1"
    and pay: "unat (heap st 0 + sizeof_Block) = unat (heap st 0) + 24"
  shows "block_size (snd (mm_malloc s st)) (heap st 0) = block_size st (heap st 0)"
  by (simp add: mm_malloc_no_split [OF assms(1-5)] block_size_def pay load_memset_disj
        load_upd_other)


subsection \<open>What \<^verbatim>\<open>mm_free\<close> of a pointer inside the arena writes\<close>

lemma mm_free_inside:
  "p \<noteq> 0 \<Longrightarrow> \<not> p < heap_start st \<Longrightarrow> \<not> heap_start st + heap_size st \<le> p \<Longrightarrow>
   mm_free p st =
     coalesce 0 (heap_insert (p - sizeof_Block) (set_is_free (p - sizeof_Block) True st))"
  by (simp add: mm_free_def Let_def)

lemma mm_free_mem:
  assumes "p \<noteq> 0" "\<not> p < heap_start st" "\<not> heap_start st + heap_size st \<le> p"
    and "a \<noteq> unat (p - sizeof_Block) + 8"
    and "a < unat (p - sizeof_Block) \<or> unat (p - sizeof_Block) + 8 \<le> a"
    and "\<And>e. e \<in> set (index_entries st) \<Longrightarrow> a < unat e \<or> unat e + 8 \<le> a"
  shows "mem (mm_free p st) a = mem st a"
proof -
  let ?ob = "p - sizeof_Block"
  let ?st1 = "set_is_free ?ob True st"
  have e1: "index_entries ?st1 = index_entries st"
    by (simp add: set_is_free_def)
  have "mem (coalesce 0 (heap_insert ?ob ?st1)) a = mem (heap_insert ?ob ?st1) a"
  proof (rule coalesce_mem)
    fix e assume "e \<in> set (index_entries (heap_insert ?ob ?st1))"
    then have "e = ?ob \<or> e \<in> set (index_entries st)"
      using heap_insert_entries_subset [of ?ob ?st1] e1 by auto
    then show "a < unat e \<or> unat e + 8 \<le> a"
      using assms(5,6) by auto
  qed
  also have "\<dots> = mem st a"
    using assms(4) by (simp add: heap_insert_frame set_is_free_def)
  finally show ?thesis
    by (simp add: mm_free_inside [OF assms(1-3)])
qed

lemma mm_free_flag:
  assumes "p \<noteq> 0" "\<not> p < heap_start st" "\<not> heap_start st + heap_size st \<le> p"
    and "\<And>e. e \<in> set (index_entries st) \<Longrightarrow>
            unat (p - sizeof_Block) + 8 < unat e \<or> unat e + 8 \<le> unat (p - sizeof_Block) + 8"
  shows "block_is_free (mm_free p st) (p - sizeof_Block)"
proof -
  let ?ob = "p - sizeof_Block"
  let ?st1 = "set_is_free ?ob True st"
  have e1: "index_entries ?st1 = index_entries st"
    by (simp add: set_is_free_def)
  have "mem (coalesce 0 (heap_insert ?ob ?st1)) (unat ?ob + 8) = mem (heap_insert ?ob ?st1) (unat ?ob + 8)"
  proof (rule coalesce_mem)
    fix e assume "e \<in> set (index_entries (heap_insert ?ob ?st1))"
    then have "e = ?ob \<or> e \<in> set (index_entries st)"
      using heap_insert_entries_subset [of ?ob ?st1] e1 by auto
    then show "unat ?ob + 8 < unat e \<or> unat e + 8 \<le> unat ?ob + 8"
      using assms(4) by auto
  qed
  also have "\<dots> = 1"
    by (simp add: heap_insert_frame set_is_free_def)
  finally show ?thesis
    by (simp add: mm_free_inside [OF assms(1-3)] block_is_free_def)
qed


section \<open>\<^verbatim>\<open>mm_realloc\<close>\<close>

text \<open>
  A block occupies the addresses from its header up to \<open>block_end\<close>. Two blocks are
  apart when neither reaches into the other. \<open>realloc_ready st p\<close> says what a consistent
  arena gives \<^verbatim>\<open>mm_realloc(p, _)\<close>: \<open>p\<close> is a payload address inside the arena, the block
  at the root of the index ends below the top of the address space, and every block in the
  index is apart from the block of \<open>p\<close> and from the root block.
\<close>

definition block_end :: "mm_state \<Rightarrow> ptr \<Rightarrow> nat" where
  "block_end st b = unat b + 24 + unat (block_size st b)"

definition apart :: "mm_state \<Rightarrow> ptr \<Rightarrow> ptr \<Rightarrow> bool" where
  "apart st a b = (block_end st a \<le> unat b \<or> block_end st b \<le> unat a)"

definition realloc_ready :: "mm_state \<Rightarrow> ptr \<Rightarrow> bool" where
  "realloc_ready st p =
     (24 \<le> unat p \<and> heap_start st \<le> p \<and> p < heap_start st + heap_size st
      \<and> block_end st (heap st 0) < 2 ^ 64
      \<and> (\<forall>e \<in> set (index_entries st).
            apart st (p - sizeof_Block) e \<and> (e = heap st 0 \<or> apart st (heap st 0) e)))"

lemma mm_realloc_keep:
  "p \<noteq> 0 \<Longrightarrow> s \<noteq> 0 \<Longrightarrow> s \<le> block_size st (p - sizeof_Block) \<Longrightarrow> mm_realloc p s st = (p, st)"
  by (simp add: mm_realloc_def Let_def)

lemma mm_realloc_grow:
  "p \<noteq> 0 \<Longrightarrow> s \<noteq> 0 \<Longrightarrow> block_size st (p - sizeof_Block) < s \<Longrightarrow>
   mm_realloc p s st =
     (if fst (mm_malloc s st) \<noteq> 0 then
        (fst (mm_malloc s st),
         mm_free p ((snd (mm_malloc s st))
           \<lparr>mem := memcpy (mem (snd (mm_malloc s st))) (fst (mm_malloc s st)) p
                     (block_size (snd (mm_malloc s st)) (p - sizeof_Block))\<rparr>))
      else mm_malloc s st)"
  by (auto simp: mm_realloc_def Let_def split_beta prod_eq_iff)

lemma mm_malloc_fails:
  assumes "s \<noteq> 0" "heap_count st = 0 \<or> heap st 0 = 0 \<or> block_size st (heap st 0) < ALIGN s"
  shows "fst (mm_malloc s st) = 0" "mem (snd (mm_malloc s st)) = mem st"
    "heap_start (snd (mm_malloc s st)) = heap_start st"
    "heap_size (snd (mm_malloc s st)) = heap_size st"
  using assms
  by (cases "heap_count st = 0";
      simp add: mm_malloc_empty mm_malloc_too_small heap_extract_min_frame)+

lemma mm_realloc_moves:
  assumes nz: "p \<noteq> 0" "s \<noteq> 0"
    and grow: "block_size st (p - sizeof_Block) < s"
    and ne: "0 < heap_count st" "heap st 0 \<noteq> 0"
    and fits: "ALIGN s \<le> block_size st (heap st 0)"
    and small: "unat s + 39 < 2 ^ 64"
    and ready: "realloc_ready st p"
  shows "fst (mm_realloc p s st) = heap st 0 + sizeof_Block"
    and "fst (mm_realloc p s st) \<noteq> 0"
    and "\<forall>k < unat (block_size st (p - sizeof_Block)).
           mem (snd (mm_realloc p s st)) (unat (fst (mm_realloc p s st)) + k) = mem st (unat p + k)"
    and "block_is_free (snd (mm_realloc p s st)) (p - sizeof_Block)"
proof -
  let ?ob = "p - sizeof_Block" and ?nb = "heap st 0" and ?sz = "ALIGN s"
  let ?os = "block_size st ?ob" and ?ns = "block_size st ?nb"
  let ?np = "?nb + sizeof_Block" and ?r = "?nb + sizeof_Block + ?sz"
  let ?st1 = "snd (mm_malloc s st)"
  let ?st2 = "?st1\<lparr>mem := memcpy (mem ?st1) ?np p (block_size ?st1 ?ob)\<rparr>"
  have nlt: "\<not> ?ns < ?sz" using fits by simp
  note ok = nz(2) ne nlt
  have space: "unat ?nb + 24 + unat ?ns < 2 ^ 64"
    using ready by (simp add: realloc_ready_def block_end_def)
  have thr: "unat ?sz + 32 < 2 ^ 64"
    using small unat_ALIGN_le [of s] by simp
  have uob: "unat ?ob = unat p - 24" and p24: "24 \<le> unat p"
    using ready by (simp_all add: realloc_ready_def unat_sub word_le_nat_alt)
  have unp: "unat ?np = unat ?nb + 24"
    using space by (simp add: unat_payload)
  have os_lt: "unat ?os < unat ?sz"
    using grow unat_ALIGN_ge [of s] small by (simp add: word_less_nat_alt)
  have sz_le: "unat ?sz \<le> unat ?ns"
    using fits by (simp add: word_le_nat_alt)
  have nb_in: "?nb \<in> set (index_entries st)"
    using ne(1) by (auto simp: index_entries_def)
  have ap: "apart st ?ob e" "e = ?nb \<or> apart st ?nb e" if "e \<in> set (index_entries st)" for e
    using ready that by (simp_all add: realloc_ready_def)
  have ap_nb: "unat ?ob + 24 + unat ?os \<le> unat ?nb \<or> unat ?nb + 24 + unat ?ns \<le> unat ?ob"
    using ap(1) [OF nb_in] by (simp add: apart_def block_end_def)
  have arena: "\<not> p < heap_start ?st2" "\<not> heap_start ?st2 + heap_size ?st2 \<le> p"
    using ready by (auto simp: realloc_ready_def mm_malloc_fits_mem(2,3) [OF ok])

  have old_kept: "mem ?st1 a = mem st a" if "unat ?ob \<le> a" "a < unat ?ob + 24 + unat ?os" for a
    using that ap_nb by (intro mm_malloc_fits_mem_outside [OF ok space thr]) auto
  have "load_le (mem ?st1) (unat ?ob) 8 = load_le (mem st) (unat ?ob) 8"
    by (rule load_le_cong) (simp add: old_kept)
  then have os1: "block_size ?st1 ?ob = ?os"
    by (simp add: block_size_def)

  have p1: "fst (mm_malloc s st) = ?np"
    by (rule mm_malloc_fits_ptr [OF ok])
  have np_nz: "?np \<noteq> 0"
    using unp by (metis add_is_0 unat_0 zero_neq_numeral)
  have eq: "mm_realloc p s st = (?np, mm_free p ?st2)"
    using np_nz by (simp add: mm_realloc_grow [OF nz grow] p1)

  have entries1: "e \<in> set (index_entries st) \<or> (e = ?r \<and> unat ?r = unat ?nb + 24 + unat ?sz
                    \<and> unat ?sz + 32 \<le> unat ?ns)"
    if "e \<in> set (index_entries ?st2)" for e
  proof -
    from that have "e \<in> set (index_entries ?st1)" by simp
    then have "e \<in> set (index_entries st) \<or> (e = ?r \<and> ?sz + sizeof_Block + ALIGN 1 \<le> ?ns)"
      by (rule mm_malloc_fits_entries [OF ok])
    then show ?thesis
    proof
      assume "e = ?r \<and> ?sz + sizeof_Block + ALIGN 1 \<le> ?ns"
      then have "e = ?r" and big: "unat ?sz + 24 + 8 \<le> unat ?ns"
        using split_threshold [OF thr, of ?ns] by simp_all
      moreover have "unat ?r = unat ?nb + 24 + unat ?sz"
        using space big by (simp add: unat_next_block)
      ultimately show ?thesis by simp
    qed simp
  qed

  show "fst (mm_realloc p s st) = ?np"
    by (simp add: eq)
  show "fst (mm_realloc p s st) \<noteq> 0"
    using np_nz by (simp add: eq)
  show "\<forall>k < unat ?os. mem (snd (mm_realloc p s st)) (unat (fst (mm_realloc p s st)) + k)
                          = mem st (unat p + k)"
  proof (intro allI impI)
    fix k assume k: "k < unat ?os"
    let ?a = "unat ?nb + 24 + k"
    have "mem (mm_free p ?st2) ?a = mem ?st2 ?a"
    proof (rule mm_free_mem [OF nz(1) arena])
      show "?a \<noteq> unat ?ob + 8"
        using ap_nb k os_lt sz_le by auto
      show "?a < unat ?ob \<or> unat ?ob + 8 \<le> ?a"
        using ap_nb k os_lt sz_le by auto
      fix e assume "e \<in> set (index_entries ?st2)"
      from entries1 [OF this] show "?a < unat e \<or> unat e + 8 \<le> ?a"
      proof (elim disjE conjE)
        assume e: "e \<in> set (index_entries st)"
        from ap(2) [OF e] show ?thesis
          using k os_lt sz_le by (auto simp: apart_def block_end_def)
      next
        assume "e = ?r" "unat ?r = unat ?nb + 24 + unat ?sz"
        then show ?thesis using k os_lt by simp
      qed
    qed
    also have "\<dots> = mem ?st1 (unat p + k)"
      using k by (simp add: memcpy_inside unp os1)
    also have "\<dots> = mem st (unat p + k)"
      using k p24 by (intro old_kept) (simp_all add: uob)
    finally show "mem (snd (mm_realloc p s st)) (unat (fst (mm_realloc p s st)) + k) = mem st (unat p + k)"
      by (simp add: eq unp)
  qed
  have "block_is_free (mm_free p ?st2) ?ob"
  proof (rule mm_free_flag [OF nz(1) arena])
    fix e assume "e \<in> set (index_entries ?st2)"
    from entries1 [OF this] show "unat ?ob + 8 < unat e \<or> unat e + 8 \<le> unat ?ob + 8"
    proof (elim disjE conjE)
      assume e: "e \<in> set (index_entries st)"
      from ap(1) [OF e] show ?thesis
        by (auto simp: apart_def block_end_def)
    next
      assume "e = ?r" "unat ?r = unat ?nb + 24 + unat ?sz" "unat ?sz + 32 \<le> unat ?ns"
      then show ?thesis using ap_nb by auto
    qed
  qed
  then show "block_is_free (snd (mm_realloc p s st)) ?ob"
    by (simp add: eq)
qed

section \<open>Sessions, call by call\<close>

text \<open>
  The sessions below run the operations on an arena that \<^verbatim>\<open>sbrk\<close> placed at address
  4096 (\<^verbatim>\<open>0x1000\<close>), from any initial memory \<open>m\<close>. Each lemma is one call; the
  memory after each call is named.
\<close>

lemmas mem_simps = load_store_same load_store_disj load_upd_other load_memset_disj
  load_memset_inside load_memcpy_disj store_le_other memset_zero_outside memset_zero_inside
  memcpy_outside memcpy_inside

lemmas op_defs = mm_init_def mm_malloc_def mm_free_def mm_realloc_def heap_insert_def
  heap_extract_min_def set_size_def set_is_free_def set_next_def block_size_def block_is_free_def
  MIN_BLOCK_SIZE_def sizeof_Block_def MAX_HEAP_SIZE_def ALIGN_def swap_def Let_def

lemmas run_simps = op_defs mem_simps heapify_up.simps heapify_down.simps coalesce.simps
  initial_state_def

subsection \<open>Session A: a small free block in front of a large one\<close>

text \<open>\<^verbatim>\<open>mm_init(1024); p = mm_malloc(8); q = mm_malloc(8); mm_free(p); mm_malloc(100)\<close>\<close>

definition mem_a0 :: "memory \<Rightarrow> memory" where
  "mem_a0 m = store_le ((store_le m 4096 8 1000)(4104 := 1)) 4112 8 0"

definition mem_a1 :: "memory \<Rightarrow> memory" where
  "mem_a1 m = memset_zero ((store_le ((store_le (mem_a0 m) 4128 8 968)(4136 := 1)) 4096 8 8)
                             (4104 := 0)) 4120 8"

definition mem_a2 :: "memory \<Rightarrow> memory" where
  "mem_a2 m = memset_zero ((store_le ((store_le (mem_a1 m) 4160 8 936)(4168 := 1)) 4128 8 8)
                             (4136 := 0)) 4152 8"

definition mem_a3 :: "memory \<Rightarrow> memory" where
  "mem_a3 m = (mem_a2 m)(4104 := 1)"

lemmas mem_a_defs = mem_a0_def mem_a1_def mem_a2_def mem_a3_def

lemma session_a_init:
  "mm_init 1024 4096 (initial_state m) =
     \<lparr>heap_start = 4096, heap_size = 1024, heap = (\<lambda>_. 0)(0 := 4096), heap_count = Suc 0,
      mem = mem_a0 m\<rparr>"
  by (simp add: mem_a_defs run_simps)

lemma session_a_malloc1:
  "mm_malloc 8 \<lparr>heap_start = 4096, heap_size = 1024, heap = (\<lambda>_. 0)(0 := 4096),
                heap_count = Suc 0, mem = mem_a0 m\<rparr> =
     (4120, \<lparr>heap_start = 4096, heap_size = 1024, heap = (\<lambda>_. 0)(0 := 4128),
             heap_count = Suc 0, mem = mem_a1 m\<rparr>)"
  by (simp add: mem_a_defs run_simps)

lemma session_a_malloc2:
  "mm_malloc 8 \<lparr>heap_start = 4096, heap_size = 1024, heap = (\<lambda>_. 0)(0 := 4128),
                heap_count = Suc 0, mem = mem_a1 m\<rparr> =
     (4152, \<lparr>heap_start = 4096, heap_size = 1024, heap = (\<lambda>_. 0)(0 := 4160),
             heap_count = Suc 0, mem = mem_a2 m\<rparr>)"
  by (simp add: mem_a_defs run_simps)

lemma session_a_free:
  "mm_free 4120 \<lparr>heap_start = 4096, heap_size = 1024, heap = (\<lambda>_. 0)(0 := 4160),
                 heap_count = Suc 0, mem = mem_a2 m\<rparr> =
     \<lparr>heap_start = 4096, heap_size = 1024, heap = (\<lambda>_. 0)(Suc 0 := 4160, 0 := 4096),
      heap_count = Suc (Suc 0), mem = mem_a3 m\<rparr>"
  by (simp add: mem_a_defs run_simps)

lemma session_a_malloc3:
  "mm_malloc 100 \<lparr>heap_start = 4096, heap_size = 1024,
                  heap = (\<lambda>_. 0)(Suc 0 := 4160, 0 := 4096), heap_count = Suc (Suc 0), mem = mem_a3 m\<rparr> =
     (0, \<lparr>heap_start = 4096, heap_size = 1024, heap = (\<lambda>_. 0)(Suc 0 := 4160, 0 := 4160),
          heap_count = Suc 0, mem = mem_a3 m\<rparr>)"
  by (simp add: mem_a_defs run_simps)

lemma session_a_sizes:
  "load_le (mem_a3 m) 4096 8 = 8" "load_le (mem_a3 m) 4160 8 = 936"
  "mem_a3 m 4104 = 1" "mem_a3 m 4168 = 1"
  by (simp_all add: mem_a_defs mem_simps)

lemma session_a_malloc_huge:
  "mm_malloc 2000 \<lparr>heap_start = 4096, heap_size = 1024, heap = (\<lambda>_. 0)(0 := 4096),
                   heap_count = Suc 0, mem = mem_a0 m\<rparr> =
     (0, \<lparr>heap_start = 4096, heap_size = 1024, heap = (\<lambda>_. 0)(0 := 4096),
          heap_count = 0, mem = mem_a0 m\<rparr>)"
  by (simp add: mem_a_defs run_simps)

subsection \<open>Session B: two neighbours that fill the arena\<close>

text \<open>\<^verbatim>\<open>mm_init(352); p1 = mm_malloc(100); p2 = mm_malloc(200); mm_free(p1); mm_free(p2);
  mm_malloc(304)\<close>, and the two frees in the other order.\<close>

definition mem_b0 :: "memory \<Rightarrow> memory" where
  "mem_b0 m = store_le ((store_le m 4096 8 328)(4104 := 1)) 4112 8 0"

definition mem_b1 :: "memory \<Rightarrow> memory" where
  "mem_b1 m = memset_zero ((store_le ((store_le (mem_b0 m) 4224 8 200)(4232 := 1)) 4096 8 104)
                             (4104 := 0)) 4120 104"

definition mem_b2 :: "memory \<Rightarrow> memory" where
  "mem_b2 m = memset_zero ((mem_b1 m)(4232 := 0)) 4248 200"

definition mem_b3 :: "memory \<Rightarrow> memory" where
  "mem_b3 m = (mem_b2 m)(4104 := 1)"

definition mem_b4 :: "memory \<Rightarrow> memory" where
  "mem_b4 m = store_le ((mem_b3 m)(4232 := 1)) 4096 8 328"

lemmas mem_b_defs = mem_b0_def mem_b1_def mem_b2_def mem_b3_def mem_b4_def

lemma session_b_init:
  "mm_init 352 4096 (initial_state m) =
     \<lparr>heap_start = 4096, heap_size = 352, heap = (\<lambda>_. 0)(0 := 4096), heap_count = Suc 0,
      mem = mem_b0 m\<rparr>"
  by (simp add: mem_b_defs run_simps)

lemma session_b_malloc1:
  "mm_malloc 100 \<lparr>heap_start = 4096, heap_size = 352, heap = (\<lambda>_. 0)(0 := 4096),
                  heap_count = Suc 0, mem = mem_b0 m\<rparr> =
     (4120, \<lparr>heap_start = 4096, heap_size = 352, heap = (\<lambda>_. 0)(0 := 4224),
             heap_count = Suc 0, mem = mem_b1 m\<rparr>)"
  by (simp add: mem_b_defs run_simps)

lemma session_b_malloc2:
  "mm_malloc 200 \<lparr>heap_start = 4096, heap_size = 352, heap = (\<lambda>_. 0)(0 := 4224),
                  heap_count = Suc 0, mem = mem_b1 m\<rparr> =
     (4248, \<lparr>heap_start = 4096, heap_size = 352, heap = (\<lambda>_. 0)(0 := 4224),
             heap_count = 0, mem = mem_b2 m\<rparr>)"
  by (simp add: mem_b_defs run_simps)

lemma session_b_free1:
  "mm_free 4120 \<lparr>heap_start = 4096, heap_size = 352, heap = (\<lambda>_. 0)(0 := 4224),
                 heap_count = 0, mem = mem_b2 m\<rparr> =
     \<lparr>heap_start = 4096, heap_size = 352, heap = (\<lambda>_. 0)(0 := 4096), heap_count = Suc 0,
      mem = mem_b3 m\<rparr>"
  by (simp add: mem_b_defs run_simps)

lemma session_b_free2:
  "mm_free 4248 \<lparr>heap_start = 4096, heap_size = 352, heap = (\<lambda>_. 0)(0 := 4096),
                 heap_count = Suc 0, mem = mem_b3 m\<rparr> =
     \<lparr>heap_start = 4096, heap_size = 352, heap = (\<lambda>_. 0)(Suc 0 := 4224, 0 := 4224),
      heap_count = Suc 0, mem = mem_b4 m\<rparr>"
  by (simp add: mem_b_defs run_simps)

lemma session_b_malloc3:
  "mm_malloc 304 \<lparr>heap_start = 4096, heap_size = 352,
                  heap = (\<lambda>_. 0)(Suc 0 := 4224, 0 := 4224), heap_count = Suc 0, mem = mem_b4 m\<rparr> =
     (0, \<lparr>heap_start = 4096, heap_size = 352, heap = (\<lambda>_. 0)(Suc 0 := 4224, 0 := 4224),
          heap_count = 0, mem = mem_b4 m\<rparr>)"
  by (simp add: mem_b_defs run_simps)

lemma session_b_headers:
  "load_le (mem_b2 m) 4096 8 = 104" "load_le (mem_b2 m) 4224 8 = 200"
  "mem_b2 m 4104 = 0" "mem_b2 m 4232 = 0"
  "load_le (mem_b4 m) 4096 8 = 328" "load_le (mem_b4 m) 4224 8 = 200"
  "mem_b4 m 4104 = 1" "mem_b4 m 4232 = 1"
  by (simp_all add: mem_b_defs mem_simps)

subsection \<open>Session C: a block reused for a slightly smaller request\<close>










subsection \<open>The states the sessions reach\<close>

definition session_a :: mm_state where
  "session_a =
     mm_free 4120 (snd (mm_malloc 8 (snd (mm_malloc 8 (mm_init 1024 4096 (initial_state (\<lambda>_. 0)))))))"

lemma session_a_state:
  "session_a =
     \<lparr>heap_start = 4096, heap_size = 1024, heap = (\<lambda>_. 0)(Suc 0 := 4160, 0 := 4096),
      heap_count = Suc (Suc 0), mem = mem_a3 (\<lambda>_. 0)\<rparr>"
  by (simp add: session_a_def session_a_init session_a_malloc1 session_a_malloc2 session_a_free)

lemma session_a_index:
  "heap_count session_a = 2" "heap session_a 0 = 4096" "heap session_a (Suc 0) = 4160"
  "index_entries session_a = [4096, 4160]"
  "block_size session_a 4096 = 8" "block_size session_a 4160 = 936"
  "block_is_free session_a 4096"
  by (simp_all add: session_a_state index_entries_def block_size_def block_is_free_def
        session_a_sizes)

definition arena_1024 :: mm_state where
  "arena_1024 = mm_init 1024 4096 (initial_state (\<lambda>_. 0))"

lemma arena_1024_index:
  "heap_count arena_1024 = 1" "heap arena_1024 0 = 4096" "block_size arena_1024 4096 = 1000"
  "heap_start arena_1024 = 4096" "heap_size arena_1024 = 1024"
  "index_entries arena_1024 = [4096]"
  by (simp_all add: arena_1024_def session_a_init block_size_def mem_a0_def mem_simps
        index_entries_def)

text \<open>Session B with the two frees in the other order.\<close>

definition mem_b3r :: "memory \<Rightarrow> memory" where
  "mem_b3r m = (mem_b2 m)(4232 := 1)"

definition mem_b4r :: "memory \<Rightarrow> memory" where
  "mem_b4r m = store_le ((mem_b3r m)(4104 := 1)) 4096 8 328"

lemma session_b_free2_first:
  "mm_free 4248 \<lparr>heap_start = 4096, heap_size = 352, heap = (\<lambda>_. 0)(0 := 4224),
                 heap_count = 0, mem = mem_b2 m\<rparr> =
     \<lparr>heap_start = 4096, heap_size = 352, heap = (\<lambda>_. 0)(0 := 4224), heap_count = Suc 0,
      mem = mem_b3r m\<rparr>"
  by (simp add: mem_b3r_def mem_b4r_def mem_b_defs run_simps)

lemma session_b_free1_second:
  "mm_free 4120 \<lparr>heap_start = 4096, heap_size = 352, heap = (\<lambda>_. 0)(0 := 4224),
                 heap_count = Suc 0, mem = mem_b3r m\<rparr> =
     \<lparr>heap_start = 4096, heap_size = 352, heap = (\<lambda>_. 0)(Suc 0 := 4224, 0 := 4224),
      heap_count = Suc 0, mem = mem_b4r m\<rparr>"
  by (simp add: mem_b3r_def mem_b4r_def mem_b_defs run_simps)

lemma session_b_malloc3_reversed:
  "mm_malloc 304 \<lparr>heap_start = 4096, heap_size = 352,
                  heap = (\<lambda>_. 0)(Suc 0 := 4224, 0 := 4224), heap_count = Suc 0,
                  mem = mem_b4r m\<rparr> =
     (0, \<lparr>heap_start = 4096, heap_size = 352, heap = (\<lambda>_. 0)(Suc 0 := 4224, 0 := 4224),
          heap_count = 0, mem = mem_b4r m\<rparr>)"
  by (simp add: mem_b3r_def mem_b4r_def mem_b_defs run_simps)

lemma session_b_headers_reversed:
  "load_le (mem_b4r m) 4096 8 = 328" "load_le (mem_b4r m) 4224 8 = 200"
  "mem_b4r m 4104 = 1" "mem_b4r m 4232 = 1"
  by (simp_all add: mem_b3r_def mem_b4r_def mem_b_defs mem_simps)

text \<open>The state of session B with both blocks allocated, and after the two frees in
  either order.\<close>

definition session_b_allocated :: mm_state where
  "session_b_allocated =
     snd (mm_malloc 200 (snd (mm_malloc 100 (mm_init 352 4096 (initial_state (\<lambda>_. 0))))))"

definition session_b :: mm_state where
  "session_b = mm_free 4248 (mm_free 4120 session_b_allocated)"

definition session_b_reversed :: mm_state where
  "session_b_reversed = mm_free 4120 (mm_free 4248 session_b_allocated)"

lemma session_b_allocated_state:
  "session_b_allocated =
     \<lparr>heap_start = 4096, heap_size = 352, heap = (\<lambda>_. 0)(0 := 4224), heap_count = 0,
      mem = mem_b2 (\<lambda>_. 0)\<rparr>"
  by (simp add: session_b_allocated_def session_b_init session_b_malloc1 session_b_malloc2)

lemma session_b_state:
  "session_b =
     \<lparr>heap_start = 4096, heap_size = 352, heap = (\<lambda>_. 0)(Suc 0 := 4224, 0 := 4224),
      heap_count = Suc 0, mem = mem_b4 (\<lambda>_. 0)\<rparr>"
  by (simp add: session_b_def session_b_allocated_state session_b_free1 session_b_free2)

lemma session_b_reversed_state:
  "session_b_reversed =
     \<lparr>heap_start = 4096, heap_size = 352, heap = (\<lambda>_. 0)(Suc 0 := 4224, 0 := 4224),
      heap_count = Suc 0, mem = mem_b4r (\<lambda>_. 0)\<rparr>"
  by (simp add: session_b_reversed_def session_b_allocated_state session_b_free2_first
        session_b_free1_second)



subsection \<open>Session D: a block to reallocate\<close>

text \<open>Session D: \<^verbatim>\<open>mm_init(1024); p = mm_malloc(100); p[5] = 0x5A\<close>, the store being the
  caller's.\<close>

definition mem_d1 :: "memory \<Rightarrow> memory" where
  "mem_d1 m = memset_zero ((store_le ((store_le (mem_a0 m) 4224 8 872)(4232 := 1)) 4096 8 104)
                             (4104 := 0)) 4120 104"

lemma session_d_malloc:
  "mm_malloc 100 \<lparr>heap_start = 4096, heap_size = 1024, heap = (\<lambda>_. 0)(0 := 4096),
                  heap_count = Suc 0, mem = mem_a0 m\<rparr> =
     (4120, \<lparr>heap_start = 4096, heap_size = 1024, heap = (\<lambda>_. 0)(0 := 4224),
             heap_count = Suc 0, mem = mem_d1 m\<rparr>)"
  by (simp add: mem_d1_def mem_a_defs run_simps)

definition session_d :: mm_state where
  "session_d =
     (snd (mm_malloc 100 arena_1024))
       \<lparr>mem := (mem (snd (mm_malloc 100 arena_1024)))(4120 + 5 := 0x5A)\<rparr>"

lemma session_d_state:
  "session_d =
     \<lparr>heap_start = 4096, heap_size = 1024, heap = (\<lambda>_. 0)(0 := 4224), heap_count = Suc 0,
      mem = (mem_d1 (\<lambda>_. 0))(4125 := 0x5A)\<rparr>"
  by (simp add: session_d_def arena_1024_def session_a_init session_d_malloc)

lemma session_d_index:
  "heap_count session_d = 1" "heap session_d 0 = 4224" "index_entries session_d = [4224]"
  "heap_start session_d = 4096" "heap_size session_d = 1024"
  "block_size session_d 4096 = 104" "block_size session_d 4224 = 872"
  "\<not> block_is_free session_d 4096" "mem session_d 4125 = 0x5A"
  by (simp_all add: session_d_state index_entries_def block_size_def block_is_free_def
        mem_d1_def mem_a_defs mem_simps)

lemma session_d_ready: "realloc_ready session_d 4120"
  by (simp add: realloc_ready_def apart_def block_end_def session_d_index sizeof_Block_def)

subsection \<open>Session E: ten allocations, seven frees\<close>

text \<open>
  \<^verbatim>\<open>mm_init(704)\<close>, ten allocations of 16, 8, 8, 8, 24, 8, 16, 8, 16 and 8 bytes, then
  \<^verbatim>\<open>mm_free\<close> of the fourth, sixth, ninth, first, second, seventh and fifth of the
  pointers returned. The headers each call leaves behind are listed after it.
\<close>

definition mem_e0 :: "memory \<Rightarrow> memory" where
  "mem_e0 m = store_le ((store_le m 4096 8 680)(4104 := 1)) 4112 8 0"

lemma mem_e0_headers:
  "load_le (mem_e0 m) 4096 8 = 680" "mem_e0 m 4104 = 1"
  by (simp_all add: mem_e0_def mem_simps)

lemma session_e_0:
  "mm_init 704 4096 (initial_state m) =
     \<lparr>heap_start = 4096, heap_size = 704, heap = (\<lambda>_. 0)(0 := 4096),
      heap_count = Suc 0, mem = mem_e0 m\<rparr>"
  by (simp add: mem_e0_def run_simps)

definition mem_e1 :: "memory \<Rightarrow> memory" where
  "mem_e1 m = memset_zero ((store_le ((store_le (mem_e0 m) 4136 8 640)(4144 := 1)) 4096 8
      16)(4104 := 0)) 4120 16"

lemma mem_e1_headers:
  "load_le (mem_e1 m) 4096 8 = 16" "mem_e1 m 4104 = 0"
  "load_le (mem_e1 m) 4136 8 = 640" "mem_e1 m 4144 = 1"
  by (simp_all add: mem_e1_def mem_simps mem_e0_headers)

lemma session_e_1:
  "mm_malloc 16 \<lparr>heap_start = 4096, heap_size = 704, heap = (\<lambda>_. 0)(0 := 4096),
      heap_count = Suc 0, mem = mem_e0 m\<rparr> =
     (4120, \<lparr>heap_start = 4096, heap_size = 704, heap = (\<lambda>_. 0)(0 := 4136),
      heap_count = Suc 0, mem = mem_e1 m\<rparr>)"
  by (simp add: mem_e1_def mem_e0_headers run_simps)

definition mem_e2 :: "memory \<Rightarrow> memory" where
  "mem_e2 m = memset_zero ((store_le ((store_le (mem_e1 m) 4168 8 608)(4176 := 1)) 4136 8
      8)(4144 := 0)) 4160 8"

lemma mem_e2_headers:
  "load_le (mem_e2 m) 4096 8 = 16" "mem_e2 m 4104 = 0"
  "load_le (mem_e2 m) 4136 8 = 8" "mem_e2 m 4144 = 0"
  "load_le (mem_e2 m) 4168 8 = 608" "mem_e2 m 4176 = 1"
  by (simp_all add: mem_e2_def mem_simps mem_e1_headers)

lemma session_e_2:
  "mm_malloc 8 \<lparr>heap_start = 4096, heap_size = 704, heap = (\<lambda>_. 0)(0 := 4136),
      heap_count = Suc 0, mem = mem_e1 m\<rparr> =
     (4160, \<lparr>heap_start = 4096, heap_size = 704, heap = (\<lambda>_. 0)(0 := 4168),
      heap_count = Suc 0, mem = mem_e2 m\<rparr>)"
  by (simp add: mem_e2_def mem_e1_headers run_simps)

definition mem_e3 :: "memory \<Rightarrow> memory" where
  "mem_e3 m = memset_zero ((store_le ((store_le (mem_e2 m) 4200 8 576)(4208 := 1)) 4168 8
      8)(4176 := 0)) 4192 8"

lemma mem_e3_headers:
  "load_le (mem_e3 m) 4096 8 = 16" "mem_e3 m 4104 = 0"
  "load_le (mem_e3 m) 4136 8 = 8" "mem_e3 m 4144 = 0"
  "load_le (mem_e3 m) 4168 8 = 8" "mem_e3 m 4176 = 0"
  "load_le (mem_e3 m) 4200 8 = 576" "mem_e3 m 4208 = 1"
  by (simp_all add: mem_e3_def mem_simps mem_e2_headers)

lemma session_e_3:
  "mm_malloc 8 \<lparr>heap_start = 4096, heap_size = 704, heap = (\<lambda>_. 0)(0 := 4168),
      heap_count = Suc 0, mem = mem_e2 m\<rparr> =
     (4192, \<lparr>heap_start = 4096, heap_size = 704, heap = (\<lambda>_. 0)(0 := 4200),
      heap_count = Suc 0, mem = mem_e3 m\<rparr>)"
  by (simp add: mem_e3_def mem_e2_headers run_simps)

definition mem_e4 :: "memory \<Rightarrow> memory" where
  "mem_e4 m = memset_zero ((store_le ((store_le (mem_e3 m) 4232 8 544)(4240 := 1)) 4200 8
      8)(4208 := 0)) 4224 8"

lemma mem_e4_headers:
  "load_le (mem_e4 m) 4096 8 = 16" "mem_e4 m 4104 = 0"
  "load_le (mem_e4 m) 4136 8 = 8" "mem_e4 m 4144 = 0"
  "load_le (mem_e4 m) 4168 8 = 8" "mem_e4 m 4176 = 0"
  "load_le (mem_e4 m) 4200 8 = 8" "mem_e4 m 4208 = 0"
  "load_le (mem_e4 m) 4232 8 = 544" "mem_e4 m 4240 = 1"
  by (simp_all add: mem_e4_def mem_simps mem_e3_headers)

lemma session_e_4:
  "mm_malloc 8 \<lparr>heap_start = 4096, heap_size = 704, heap = (\<lambda>_. 0)(0 := 4200),
      heap_count = Suc 0, mem = mem_e3 m\<rparr> =
     (4224, \<lparr>heap_start = 4096, heap_size = 704, heap = (\<lambda>_. 0)(0 := 4232),
      heap_count = Suc 0, mem = mem_e4 m\<rparr>)"
  by (simp add: mem_e4_def mem_e3_headers run_simps)

definition mem_e5 :: "memory \<Rightarrow> memory" where
  "mem_e5 m = memset_zero ((store_le ((store_le (mem_e4 m) 4280 8 496)(4288 := 1)) 4232 8
      24)(4240 := 0)) 4256 24"

lemma mem_e5_headers:
  "load_le (mem_e5 m) 4096 8 = 16" "mem_e5 m 4104 = 0"
  "load_le (mem_e5 m) 4136 8 = 8" "mem_e5 m 4144 = 0"
  "load_le (mem_e5 m) 4168 8 = 8" "mem_e5 m 4176 = 0"
  "load_le (mem_e5 m) 4200 8 = 8" "mem_e5 m 4208 = 0"
  "load_le (mem_e5 m) 4232 8 = 24" "mem_e5 m 4240 = 0"
  "load_le (mem_e5 m) 4280 8 = 496" "mem_e5 m 4288 = 1"
  by (simp_all add: mem_e5_def mem_simps mem_e4_headers)

lemma session_e_5:
  "mm_malloc 24 \<lparr>heap_start = 4096, heap_size = 704, heap = (\<lambda>_. 0)(0 := 4232),
      heap_count = Suc 0, mem = mem_e4 m\<rparr> =
     (4256, \<lparr>heap_start = 4096, heap_size = 704, heap = (\<lambda>_. 0)(0 := 4280),
      heap_count = Suc 0, mem = mem_e5 m\<rparr>)"
  by (simp add: mem_e5_def mem_e4_headers run_simps)

definition mem_e6 :: "memory \<Rightarrow> memory" where
  "mem_e6 m = memset_zero ((store_le ((store_le (mem_e5 m) 4312 8 464)(4320 := 1)) 4280 8
      8)(4288 := 0)) 4304 8"

lemma mem_e6_headers:
  "load_le (mem_e6 m) 4096 8 = 16" "mem_e6 m 4104 = 0"
  "load_le (mem_e6 m) 4136 8 = 8" "mem_e6 m 4144 = 0"
  "load_le (mem_e6 m) 4168 8 = 8" "mem_e6 m 4176 = 0"
  "load_le (mem_e6 m) 4200 8 = 8" "mem_e6 m 4208 = 0"
  "load_le (mem_e6 m) 4232 8 = 24" "mem_e6 m 4240 = 0"
  "load_le (mem_e6 m) 4280 8 = 8" "mem_e6 m 4288 = 0"
  "load_le (mem_e6 m) 4312 8 = 464" "mem_e6 m 4320 = 1"
  by (simp_all add: mem_e6_def mem_simps mem_e5_headers)

lemma session_e_6:
  "mm_malloc 8 \<lparr>heap_start = 4096, heap_size = 704, heap = (\<lambda>_. 0)(0 := 4280),
      heap_count = Suc 0, mem = mem_e5 m\<rparr> =
     (4304, \<lparr>heap_start = 4096, heap_size = 704, heap = (\<lambda>_. 0)(0 := 4312),
      heap_count = Suc 0, mem = mem_e6 m\<rparr>)"
  by (simp add: mem_e6_def mem_e5_headers run_simps)

definition mem_e7 :: "memory \<Rightarrow> memory" where
  "mem_e7 m = memset_zero ((store_le ((store_le (mem_e6 m) 4352 8 424)(4360 := 1)) 4312 8
      16)(4320 := 0)) 4336 16"

lemma mem_e7_headers:
  "load_le (mem_e7 m) 4096 8 = 16" "mem_e7 m 4104 = 0"
  "load_le (mem_e7 m) 4136 8 = 8" "mem_e7 m 4144 = 0"
  "load_le (mem_e7 m) 4168 8 = 8" "mem_e7 m 4176 = 0"
  "load_le (mem_e7 m) 4200 8 = 8" "mem_e7 m 4208 = 0"
  "load_le (mem_e7 m) 4232 8 = 24" "mem_e7 m 4240 = 0"
  "load_le (mem_e7 m) 4280 8 = 8" "mem_e7 m 4288 = 0"
  "load_le (mem_e7 m) 4312 8 = 16" "mem_e7 m 4320 = 0"
  "load_le (mem_e7 m) 4352 8 = 424" "mem_e7 m 4360 = 1"
  by (simp_all add: mem_e7_def mem_simps mem_e6_headers)

lemma session_e_7:
  "mm_malloc 16 \<lparr>heap_start = 4096, heap_size = 704, heap = (\<lambda>_. 0)(0 := 4312),
      heap_count = Suc 0, mem = mem_e6 m\<rparr> =
     (4336, \<lparr>heap_start = 4096, heap_size = 704, heap = (\<lambda>_. 0)(0 := 4352),
      heap_count = Suc 0, mem = mem_e7 m\<rparr>)"
  by (simp add: mem_e7_def mem_e6_headers run_simps)

definition mem_e8 :: "memory \<Rightarrow> memory" where
  "mem_e8 m = memset_zero ((store_le ((store_le (mem_e7 m) 4384 8 392)(4392 := 1)) 4352 8
      8)(4360 := 0)) 4376 8"

lemma mem_e8_headers:
  "load_le (mem_e8 m) 4096 8 = 16" "mem_e8 m 4104 = 0"
  "load_le (mem_e8 m) 4136 8 = 8" "mem_e8 m 4144 = 0"
  "load_le (mem_e8 m) 4168 8 = 8" "mem_e8 m 4176 = 0"
  "load_le (mem_e8 m) 4200 8 = 8" "mem_e8 m 4208 = 0"
  "load_le (mem_e8 m) 4232 8 = 24" "mem_e8 m 4240 = 0"
  "load_le (mem_e8 m) 4280 8 = 8" "mem_e8 m 4288 = 0"
  "load_le (mem_e8 m) 4312 8 = 16" "mem_e8 m 4320 = 0"
  "load_le (mem_e8 m) 4352 8 = 8" "mem_e8 m 4360 = 0"
  "load_le (mem_e8 m) 4384 8 = 392" "mem_e8 m 4392 = 1"
  by (simp_all add: mem_e8_def mem_simps mem_e7_headers)

lemma session_e_8:
  "mm_malloc 8 \<lparr>heap_start = 4096, heap_size = 704, heap = (\<lambda>_. 0)(0 := 4352),
      heap_count = Suc 0, mem = mem_e7 m\<rparr> =
     (4376, \<lparr>heap_start = 4096, heap_size = 704, heap = (\<lambda>_. 0)(0 := 4384),
      heap_count = Suc 0, mem = mem_e8 m\<rparr>)"
  by (simp add: mem_e8_def mem_e7_headers run_simps)

definition mem_e9 :: "memory \<Rightarrow> memory" where
  "mem_e9 m = memset_zero ((store_le ((store_le (mem_e8 m) 4424 8 352)(4432 := 1)) 4384 8
      16)(4392 := 0)) 4408 16"

lemma mem_e9_headers:
  "load_le (mem_e9 m) 4096 8 = 16" "mem_e9 m 4104 = 0"
  "load_le (mem_e9 m) 4136 8 = 8" "mem_e9 m 4144 = 0"
  "load_le (mem_e9 m) 4168 8 = 8" "mem_e9 m 4176 = 0"
  "load_le (mem_e9 m) 4200 8 = 8" "mem_e9 m 4208 = 0"
  "load_le (mem_e9 m) 4232 8 = 24" "mem_e9 m 4240 = 0"
  "load_le (mem_e9 m) 4280 8 = 8" "mem_e9 m 4288 = 0"
  "load_le (mem_e9 m) 4312 8 = 16" "mem_e9 m 4320 = 0"
  "load_le (mem_e9 m) 4352 8 = 8" "mem_e9 m 4360 = 0"
  "load_le (mem_e9 m) 4384 8 = 16" "mem_e9 m 4392 = 0"
  "load_le (mem_e9 m) 4424 8 = 352" "mem_e9 m 4432 = 1"
  by (simp_all add: mem_e9_def mem_simps mem_e8_headers)

lemma session_e_9:
  "mm_malloc 16 \<lparr>heap_start = 4096, heap_size = 704, heap = (\<lambda>_. 0)(0 := 4384),
      heap_count = Suc 0, mem = mem_e8 m\<rparr> =
     (4408, \<lparr>heap_start = 4096, heap_size = 704, heap = (\<lambda>_. 0)(0 := 4424),
      heap_count = Suc 0, mem = mem_e9 m\<rparr>)"
  by (simp add: mem_e9_def mem_e8_headers run_simps)

definition mem_e10 :: "memory \<Rightarrow> memory" where
  "mem_e10 m = memset_zero ((store_le ((store_le (mem_e9 m) 4456 8 320)(4464 := 1)) 4424 8
      8)(4432 := 0)) 4448 8"

lemma mem_e10_headers:
  "load_le (mem_e10 m) 4096 8 = 16" "mem_e10 m 4104 = 0"
  "load_le (mem_e10 m) 4136 8 = 8" "mem_e10 m 4144 = 0"
  "load_le (mem_e10 m) 4168 8 = 8" "mem_e10 m 4176 = 0"
  "load_le (mem_e10 m) 4200 8 = 8" "mem_e10 m 4208 = 0"
  "load_le (mem_e10 m) 4232 8 = 24" "mem_e10 m 4240 = 0"
  "load_le (mem_e10 m) 4280 8 = 8" "mem_e10 m 4288 = 0"
  "load_le (mem_e10 m) 4312 8 = 16" "mem_e10 m 4320 = 0"
  "load_le (mem_e10 m) 4352 8 = 8" "mem_e10 m 4360 = 0"
  "load_le (mem_e10 m) 4384 8 = 16" "mem_e10 m 4392 = 0"
  "load_le (mem_e10 m) 4424 8 = 8" "mem_e10 m 4432 = 0"
  "load_le (mem_e10 m) 4456 8 = 320" "mem_e10 m 4464 = 1"
  by (simp_all add: mem_e10_def mem_simps mem_e9_headers)

lemma session_e_10:
  "mm_malloc 8 \<lparr>heap_start = 4096, heap_size = 704, heap = (\<lambda>_. 0)(0 := 4424),
      heap_count = Suc 0, mem = mem_e9 m\<rparr> =
     (4448, \<lparr>heap_start = 4096, heap_size = 704, heap = (\<lambda>_. 0)(0 := 4456),
      heap_count = Suc 0, mem = mem_e10 m\<rparr>)"
  by (simp add: mem_e10_def mem_e9_headers run_simps)

definition mem_e11 :: "memory \<Rightarrow> memory" where
  "mem_e11 m = (mem_e10 m)(4208 := 1)"

lemma mem_e11_headers:
  "load_le (mem_e11 m) 4096 8 = 16" "mem_e11 m 4104 = 0"
  "load_le (mem_e11 m) 4136 8 = 8" "mem_e11 m 4144 = 0"
  "load_le (mem_e11 m) 4168 8 = 8" "mem_e11 m 4176 = 0"
  "load_le (mem_e11 m) 4200 8 = 8" "mem_e11 m 4208 = 1"
  "load_le (mem_e11 m) 4232 8 = 24" "mem_e11 m 4240 = 0"
  "load_le (mem_e11 m) 4280 8 = 8" "mem_e11 m 4288 = 0"
  "load_le (mem_e11 m) 4312 8 = 16" "mem_e11 m 4320 = 0"
  "load_le (mem_e11 m) 4352 8 = 8" "mem_e11 m 4360 = 0"
  "load_le (mem_e11 m) 4384 8 = 16" "mem_e11 m 4392 = 0"
  "load_le (mem_e11 m) 4424 8 = 8" "mem_e11 m 4432 = 0"
  "load_le (mem_e11 m) 4456 8 = 320" "mem_e11 m 4464 = 1"
  by (simp_all add: mem_e11_def mem_simps mem_e10_headers)

lemma session_e_11:
  "mm_free 4224 \<lparr>heap_start = 4096, heap_size = 704, heap = (\<lambda>_. 0)(0 := 4456),
      heap_count = Suc 0, mem = mem_e10 m\<rparr> =
     \<lparr>heap_start = 4096, heap_size = 704, heap = (\<lambda>_. 0)(Suc 0 := 4456, 0 := 4200),
      heap_count = Suc (Suc 0), mem = mem_e11 m\<rparr>"
  by (simp add: mem_e11_def mem_e10_headers run_simps)

definition mem_e12 :: "memory \<Rightarrow> memory" where
  "mem_e12 m = (mem_e11 m)(4288 := 1)"

lemma mem_e12_headers:
  "load_le (mem_e12 m) 4096 8 = 16" "mem_e12 m 4104 = 0"
  "load_le (mem_e12 m) 4136 8 = 8" "mem_e12 m 4144 = 0"
  "load_le (mem_e12 m) 4168 8 = 8" "mem_e12 m 4176 = 0"
  "load_le (mem_e12 m) 4200 8 = 8" "mem_e12 m 4208 = 1"
  "load_le (mem_e12 m) 4232 8 = 24" "mem_e12 m 4240 = 0"
  "load_le (mem_e12 m) 4280 8 = 8" "mem_e12 m 4288 = 1"
  "load_le (mem_e12 m) 4312 8 = 16" "mem_e12 m 4320 = 0"
  "load_le (mem_e12 m) 4352 8 = 8" "mem_e12 m 4360 = 0"
  "load_le (mem_e12 m) 4384 8 = 16" "mem_e12 m 4392 = 0"
  "load_le (mem_e12 m) 4424 8 = 8" "mem_e12 m 4432 = 0"
  "load_le (mem_e12 m) 4456 8 = 320" "mem_e12 m 4464 = 1"
  by (simp_all add: mem_e12_def mem_simps mem_e11_headers)

lemma session_e_12:
  "mm_free 4304 \<lparr>heap_start = 4096, heap_size = 704, heap = (\<lambda>_. 0)(Suc 0 :=
      4456, 0 := 4200),
      heap_count = Suc (Suc 0), mem = mem_e11 m\<rparr> =
     \<lparr>heap_start = 4096, heap_size = 704, heap = (\<lambda>_. 0)(Suc 0 := 4456, 0 :=
         4200, Suc (Suc 0) := 4280),
      heap_count = Suc (Suc (Suc 0)), mem = mem_e12 m\<rparr>"
  by (simp add: mem_e12_def mem_e11_headers run_simps)

definition mem_e13 :: "memory \<Rightarrow> memory" where
  "mem_e13 m = (mem_e12 m)(4392 := 1)"

lemma mem_e13_headers:
  "load_le (mem_e13 m) 4096 8 = 16" "mem_e13 m 4104 = 0"
  "load_le (mem_e13 m) 4136 8 = 8" "mem_e13 m 4144 = 0"
  "load_le (mem_e13 m) 4168 8 = 8" "mem_e13 m 4176 = 0"
  "load_le (mem_e13 m) 4200 8 = 8" "mem_e13 m 4208 = 1"
  "load_le (mem_e13 m) 4232 8 = 24" "mem_e13 m 4240 = 0"
  "load_le (mem_e13 m) 4280 8 = 8" "mem_e13 m 4288 = 1"
  "load_le (mem_e13 m) 4312 8 = 16" "mem_e13 m 4320 = 0"
  "load_le (mem_e13 m) 4352 8 = 8" "mem_e13 m 4360 = 0"
  "load_le (mem_e13 m) 4384 8 = 16" "mem_e13 m 4392 = 1"
  "load_le (mem_e13 m) 4424 8 = 8" "mem_e13 m 4432 = 0"
  "load_le (mem_e13 m) 4456 8 = 320" "mem_e13 m 4464 = 1"
  by (simp_all add: mem_e13_def mem_simps mem_e12_headers)

lemma session_e_13:
  "mm_free 4408 \<lparr>heap_start = 4096, heap_size = 704, heap = (\<lambda>_. 0)(Suc 0 :=
      4456, 0 := 4200, Suc (Suc 0) := 4280),
      heap_count = Suc (Suc (Suc 0)), mem = mem_e12 m\<rparr> =
     \<lparr>heap_start = 4096, heap_size = 704, heap = (\<lambda>_. 0) (0 := 4200, Suc (Suc 0)
         := 4280, Suc (Suc (Suc 0)) := 4456, Suc 0 := 4384),
      heap_count = Suc (Suc (Suc (Suc 0))), mem = mem_e13 m\<rparr>"
  by (simp add: mem_e13_def mem_e12_headers run_simps)

definition mem_e14 :: "memory \<Rightarrow> memory" where
  "mem_e14 m = (mem_e13 m)(4104 := 1)"

lemma mem_e14_headers:
  "load_le (mem_e14 m) 4096 8 = 16" "mem_e14 m 4104 = 1"
  "load_le (mem_e14 m) 4136 8 = 8" "mem_e14 m 4144 = 0"
  "load_le (mem_e14 m) 4168 8 = 8" "mem_e14 m 4176 = 0"
  "load_le (mem_e14 m) 4200 8 = 8" "mem_e14 m 4208 = 1"
  "load_le (mem_e14 m) 4232 8 = 24" "mem_e14 m 4240 = 0"
  "load_le (mem_e14 m) 4280 8 = 8" "mem_e14 m 4288 = 1"
  "load_le (mem_e14 m) 4312 8 = 16" "mem_e14 m 4320 = 0"
  "load_le (mem_e14 m) 4352 8 = 8" "mem_e14 m 4360 = 0"
  "load_le (mem_e14 m) 4384 8 = 16" "mem_e14 m 4392 = 1"
  "load_le (mem_e14 m) 4424 8 = 8" "mem_e14 m 4432 = 0"
  "load_le (mem_e14 m) 4456 8 = 320" "mem_e14 m 4464 = 1"
  by (simp_all add: mem_e14_def mem_simps mem_e13_headers)

lemma session_e_14:
  "mm_free 4120 \<lparr>heap_start = 4096, heap_size = 704, heap = (\<lambda>_. 0) (0 :=
      4200, Suc (Suc 0) := 4280, Suc (Suc (Suc 0)) := 4456, Suc 0 := 4384),
      heap_count = Suc (Suc (Suc (Suc 0))), mem = mem_e13 m\<rparr> =
     \<lparr>heap_start = 4096, heap_size = 704, heap = (\<lambda>_. 0) (0 := 4200, Suc (Suc 0)
         := 4280, Suc (Suc (Suc 0)) := 4456, Suc 0 := 4384, Suc (Suc (Suc (Suc 0))) := 4096),
      heap_count = Suc (Suc (Suc (Suc (Suc 0)))), mem = mem_e14 m\<rparr>"
  by (simp add: mem_e14_def mem_e13_headers run_simps)

definition mem_e15 :: "memory \<Rightarrow> memory" where
  "mem_e15 m = store_le ((mem_e14 m)(4144 := 1)) 4096 8 48"

lemma mem_e15_headers:
  "load_le (mem_e15 m) 4096 8 = 48" "mem_e15 m 4104 = 1"
  "load_le (mem_e15 m) 4136 8 = 8" "mem_e15 m 4144 = 1"
  "load_le (mem_e15 m) 4168 8 = 8" "mem_e15 m 4176 = 0"
  "load_le (mem_e15 m) 4200 8 = 8" "mem_e15 m 4208 = 1"
  "load_le (mem_e15 m) 4232 8 = 24" "mem_e15 m 4240 = 0"
  "load_le (mem_e15 m) 4280 8 = 8" "mem_e15 m 4288 = 1"
  "load_le (mem_e15 m) 4312 8 = 16" "mem_e15 m 4320 = 0"
  "load_le (mem_e15 m) 4352 8 = 8" "mem_e15 m 4360 = 0"
  "load_le (mem_e15 m) 4384 8 = 16" "mem_e15 m 4392 = 1"
  "load_le (mem_e15 m) 4424 8 = 8" "mem_e15 m 4432 = 0"
  "load_le (mem_e15 m) 4456 8 = 320" "mem_e15 m 4464 = 1"
  by (simp_all add: mem_e15_def mem_simps mem_e14_headers)

lemma session_e_15:
  "mm_free 4160 \<lparr>heap_start = 4096, heap_size = 704, heap = (\<lambda>_. 0) (0 :=
      4200, Suc (Suc 0) := 4280, Suc (Suc (Suc 0)) := 4456, Suc 0 := 4384, Suc (Suc (Suc (Suc
      0))) := 4096),
      heap_count = Suc (Suc (Suc (Suc (Suc 0)))), mem = mem_e14 m\<rparr> =
     \<lparr>heap_start = 4096, heap_size = 704, heap = (\<lambda>_. 0) (0 := 4200, Suc (Suc 0)
         := 4280, Suc (Suc (Suc 0)) := 4456, Suc 0 := 4384, Suc (Suc (Suc (Suc (Suc 0)))) := 4136,
         Suc (Suc (Suc (Suc 0))) := 4136),
      heap_count = Suc (Suc (Suc (Suc (Suc 0)))), mem = mem_e15 m\<rparr>"
  by (simp add: mem_e15_def mem_e14_headers run_simps)

definition mem_e16 :: "memory \<Rightarrow> memory" where
  "mem_e16 m = store_le ((mem_e15 m)(4320 := 1)) 4280 8 48"

lemma mem_e16_headers:
  "load_le (mem_e16 m) 4096 8 = 48" "mem_e16 m 4104 = 1"
  "load_le (mem_e16 m) 4136 8 = 8" "mem_e16 m 4144 = 1"
  "load_le (mem_e16 m) 4168 8 = 8" "mem_e16 m 4176 = 0"
  "load_le (mem_e16 m) 4200 8 = 8" "mem_e16 m 4208 = 1"
  "load_le (mem_e16 m) 4232 8 = 24" "mem_e16 m 4240 = 0"
  "load_le (mem_e16 m) 4280 8 = 48" "mem_e16 m 4288 = 1"
  "load_le (mem_e16 m) 4312 8 = 16" "mem_e16 m 4320 = 1"
  "load_le (mem_e16 m) 4352 8 = 8" "mem_e16 m 4360 = 0"
  "load_le (mem_e16 m) 4384 8 = 16" "mem_e16 m 4392 = 1"
  "load_le (mem_e16 m) 4424 8 = 8" "mem_e16 m 4432 = 0"
  "load_le (mem_e16 m) 4456 8 = 320" "mem_e16 m 4464 = 1"
  by (simp_all add: mem_e16_def mem_simps mem_e15_headers)

lemma session_e_16:
  "mm_free 4336 \<lparr>heap_start = 4096, heap_size = 704, heap = (\<lambda>_. 0) (0 :=
      4200, Suc (Suc 0) := 4280, Suc (Suc (Suc 0)) := 4456, Suc 0 := 4384, Suc (Suc (Suc (Suc
      (Suc 0)))) := 4136, Suc (Suc (Suc (Suc 0))) := 4136),
      heap_count = Suc (Suc (Suc (Suc (Suc 0)))), mem = mem_e15 m\<rparr> =
     \<lparr>heap_start = 4096, heap_size = 704, heap = (\<lambda>_. 0) (0 := 4200, Suc (Suc
         (Suc 0)) := 4456, Suc 0 := 4384, Suc (Suc (Suc (Suc 0))) := 4136, Suc (Suc (Suc (Suc (Suc
         0)))) := 4312, Suc (Suc 0) := 4312),
      heap_count = Suc (Suc (Suc (Suc (Suc 0)))), mem = mem_e16 m\<rparr>"
  by (simp add: mem_e16_def mem_e15_headers run_simps)

definition mem_e17 :: "memory \<Rightarrow> memory" where
  "mem_e17 m = store_le (store_le ((mem_e16 m)(4240 := 1)) 4200 8 56) 4232 8 96"

lemma mem_e17_headers:
  "load_le (mem_e17 m) 4096 8 = 48" "mem_e17 m 4104 = 1"
  "load_le (mem_e17 m) 4136 8 = 8" "mem_e17 m 4144 = 1"
  "load_le (mem_e17 m) 4168 8 = 8" "mem_e17 m 4176 = 0"
  "load_le (mem_e17 m) 4200 8 = 56" "mem_e17 m 4208 = 1"
  "load_le (mem_e17 m) 4232 8 = 96" "mem_e17 m 4240 = 1"
  "load_le (mem_e17 m) 4280 8 = 48" "mem_e17 m 4288 = 1"
  "load_le (mem_e17 m) 4312 8 = 16" "mem_e17 m 4320 = 1"
  "load_le (mem_e17 m) 4352 8 = 8" "mem_e17 m 4360 = 0"
  "load_le (mem_e17 m) 4384 8 = 16" "mem_e17 m 4392 = 1"
  "load_le (mem_e17 m) 4424 8 = 8" "mem_e17 m 4432 = 0"
  "load_le (mem_e17 m) 4456 8 = 320" "mem_e17 m 4464 = 1"
  by (simp_all add: mem_e17_def mem_simps mem_e16_headers)

lemma session_e_17:
  "mm_free 4256 \<lparr>heap_start = 4096, heap_size = 704, heap = (\<lambda>_. 0) (0 :=
      4200, Suc (Suc (Suc 0)) := 4456, Suc 0 := 4384, Suc (Suc (Suc (Suc 0))) := 4136, Suc (Suc
      (Suc (Suc (Suc 0)))) := 4312, Suc (Suc 0) := 4312),
      heap_count = Suc (Suc (Suc (Suc (Suc 0)))), mem = mem_e16 m\<rparr> =
     \<lparr>heap_start = 4096, heap_size = 704, heap = (\<lambda>_. 0) (Suc (Suc (Suc 0)) :=
         4456, Suc (Suc 0) := 4312, Suc (Suc (Suc (Suc (Suc 0)))) := 4232, 0 := 4384, Suc 0 :=
         4136, 4 := 4232, Suc (Suc (Suc (Suc 0))) := 4232),
      heap_count = Suc (Suc (Suc (Suc 0))), mem = mem_e17 m\<rparr>"
  by (simp add: mem_e17_def mem_e16_headers run_simps)

text \<open>A driver for a sequence of calls: it collects the pointers \<^verbatim>\<open>mm_malloc\<close> returns.\<close>

datatype call = Malloc size_t | Free ptr

fun run :: "call list \<Rightarrow> mm_state \<Rightarrow> ptr list \<times> mm_state" where
  "run [] st = ([], st)"
| "run (Malloc n # cs) st =
     (case mm_malloc n st of (p, st') \<Rightarrow> (case run cs st' of (ps, st'') \<Rightarrow> (p # ps, st'')))"
| "run (Free p # cs) st = run cs (mm_free p st)"

definition session_e_calls :: "call list" where
  "session_e_calls =
     [Malloc 16, Malloc 8, Malloc 8, Malloc 8, Malloc 24, Malloc 8, Malloc 16, Malloc 8, Malloc 16,
      Malloc 8, Free 4224, Free 4304, Free 4408, Free 4120, Free 4160, Free 4336, Free 4256]"

definition session_e :: mm_state where
  "session_e = snd (run session_e_calls (mm_init 704 4096 (initial_state (\<lambda>_. 0))))"

lemmas session_e_steps = session_e_0 session_e_1 session_e_2 session_e_3 session_e_4 session_e_5
  session_e_6 session_e_7 session_e_8 session_e_9 session_e_10 session_e_11 session_e_12
  session_e_13 session_e_14 session_e_15 session_e_16 session_e_17

lemma session_e_run:
  "run session_e_calls (mm_init 704 4096 (initial_state m)) =
     ([4120, 4160, 4192, 4224, 4256, 4304, 4336, 4376, 4408, 4448],
      \<lparr>heap_start = 4096, heap_size = 704, heap = (\<lambda>_. 0) (Suc (Suc (Suc 0))
        := 4456, Suc (Suc 0) := 4312, Suc (Suc (Suc (Suc (Suc 0)))) := 4232, 0 := 4384, Suc 0
        := 4136, 4 := 4232, Suc (Suc (Suc (Suc 0))) := 4232), heap_count = Suc (Suc (Suc (Suc
        0))), mem = mem_e17 m\<rparr>)"
  by (simp add: session_e_calls_def session_e_steps)

lemma session_e_index:
  "fst (run session_e_calls (mm_init 704 4096 (initial_state (\<lambda>_. 0))))
     = [4120, 4160, 4192, 4224, 4256, 4304, 4336, 4376, 4408, 4448]"
  "heap_count session_e = 4" "heap session_e 0 = 4384"
  "index_entries session_e = [4384, 4136, 4312, 4456]"
  "block_size session_e 4384 = 16" "block_size session_e 4136 = 8"
  "block_size session_e 4312 = 16" "block_size session_e 4456 = 320"
  "block_is_free session_e 4384" "block_is_free session_e 4136"
  "block_is_free session_e 4312" "block_is_free session_e 4456"
  by (simp_all add: session_e_def session_e_run index_entries_def block_size_def block_is_free_def
        mem_e17_headers upt_rec_numeral)

subsection \<open>Session F: a block reallocated next to a freed neighbour\<close>

text \<open>\<^verbatim>\<open>mm_init(352); p1 = mm_malloc(8); p2 = mm_malloc(8); mm_free(p2);
  mm_realloc(p1, 100)\<close>\<close>

definition mem_f1 :: "memory \<Rightarrow> memory" where
  "mem_f1 m = memset_zero ((store_le ((store_le (mem_b0 m) 4128 8 296)(4136 := 1)) 4096 8 8)
                             (4104 := 0)) 4120 8"

definition mem_f2 :: "memory \<Rightarrow> memory" where
  "mem_f2 m = memset_zero ((store_le ((store_le (mem_f1 m) 4160 8 264)(4168 := 1)) 4128 8 8)
                             (4136 := 0)) 4152 8"

definition mem_f3 :: "memory \<Rightarrow> memory" where
  "mem_f3 m = store_le ((mem_f2 m)(4136 := 1)) 4128 8 296"

definition mem_f4 :: "memory \<Rightarrow> memory" where
  "mem_f4 m = store_le ((memcpy (memset_zero ((store_le ((store_le (mem_f3 m) 4288 8 136)
                                   (4296 := 1)) 4160 8 104)(4168 := 0)) 4184 104)
                           4184 4120 8)(4104 := 1)) 4096 8 328"

lemmas mem_f_defs = mem_b0_def mem_f1_def mem_f2_def mem_f3_def mem_f4_def

lemma session_f_malloc1:
  "mm_malloc 8 \<lparr>heap_start = 4096, heap_size = 352, heap = (\<lambda>_. 0)(0 := 4096),
                heap_count = Suc 0, mem = mem_b0 m\<rparr> =
     (4120, \<lparr>heap_start = 4096, heap_size = 352, heap = (\<lambda>_. 0)(0 := 4128),
             heap_count = Suc 0, mem = mem_f1 m\<rparr>)"
  by (simp add: mem_f_defs run_simps)

lemma session_f_malloc2:
  "mm_malloc 8 \<lparr>heap_start = 4096, heap_size = 352, heap = (\<lambda>_. 0)(0 := 4128),
                heap_count = Suc 0, mem = mem_f1 m\<rparr> =
     (4152, \<lparr>heap_start = 4096, heap_size = 352, heap = (\<lambda>_. 0)(0 := 4160),
             heap_count = Suc 0, mem = mem_f2 m\<rparr>)"
  by (simp add: mem_f_defs run_simps)

lemma session_f_free:
  "mm_free 4152 \<lparr>heap_start = 4096, heap_size = 352, heap = (\<lambda>_. 0)(0 := 4160),
                 heap_count = Suc 0, mem = mem_f2 m\<rparr> =
     \<lparr>heap_start = 4096, heap_size = 352, heap = (\<lambda>_. 0)(Suc 0 := 4160, 0 := 4160),
      heap_count = Suc 0, mem = mem_f3 m\<rparr>"
  by (simp add: mem_f_defs run_simps)

lemma session_f_realloc:
  "mm_realloc 4120 100 \<lparr>heap_start = 4096, heap_size = 352,
                        heap = (\<lambda>_. 0)(Suc 0 := 4160, 0 := 4160), heap_count = Suc 0,
                        mem = mem_f3 m\<rparr> =
     (4184, \<lparr>heap_start = 4096, heap_size = 352, heap = (\<lambda>_. 0)(Suc 0 := 4288, 0 := 4288),
             heap_count = Suc 0, mem = mem_f4 m\<rparr>)"
  by (simp add: mem_f_defs run_simps)

lemma session_f_headers:
  "load_le (mem_f3 m) 4096 8 = 8" "mem_f3 m 4104 = 0"
  "load_le (mem_f3 m) 4128 8 = 296" "mem_f3 m 4136 = 1"
  "load_le (mem_f3 m) 4160 8 = 264" "mem_f3 m 4168 = 1"
  "load_le (mem_f4 m) 4096 8 = 328" "mem_f4 m 4104 = 1"
  "load_le (mem_f4 m) 4160 8 = 104" "mem_f4 m 4168 = 0"
  "load_le (mem_f4 m) 4288 8 = 136" "mem_f4 m 4296 = 1"
  by (simp_all add: mem_f_defs mem_simps)

definition session_f :: mm_state where
  "session_f =
     mm_free 4152 (snd (mm_malloc 8 (snd (mm_malloc 8 (mm_init 352 4096 (initial_state (\<lambda>_. 0)))))))"

lemma session_f_state:
  "session_f =
     \<lparr>heap_start = 4096, heap_size = 352, heap = (\<lambda>_. 0)(Suc 0 := 4160, 0 := 4160),
      heap_count = Suc 0, mem = mem_f3 (\<lambda>_. 0)\<rparr>"
  by (simp add: session_f_def session_b_init session_f_malloc1 session_f_malloc2 session_f_free)

lemma session_f_index:
  "index_entries session_f = [4160]"
  "block_size session_f 4096 = 8" "\<not> block_is_free session_f 4096"
  "block_size session_f 4128 = 296" "block_is_free session_f 4128"
  "block_size session_f 4160 = 264" "block_is_free session_f 4160"
  by (simp_all add: session_f_state index_entries_def block_size_def block_is_free_def
        session_f_headers)

subsection \<open>Session G: a block the caller filled before freeing it\<close>








section \<open>A caller that frees only what it holds\<close>

text \<open>
  The blocks the allocator keeps track of are the entries of the index and the blocks
  whose payload pointers the caller holds (\<open>live\<close>, the pointers \<^verbatim>\<open>mm_malloc\<close> returned
  and \<^verbatim>\<open>mm_free\<close> has not been given yet). The arena is \<open>consistent\<close> when these blocks
  are pairwise different, each starts at least 8 bytes above address 0 and ends below the
  top of the address space, and no two of them overlap. A block \<open>b\<close> is \<open>lost\<close> when its
  payload pointer is not null and its header lies outside every tracked block.
\<close>

definition blocks_of :: "ptr list \<Rightarrow> ptr list" where
  "blocks_of live = map (\<lambda>p. p - sizeof_Block) live"

definition tracked :: "mm_state \<Rightarrow> ptr list \<Rightarrow> ptr list" where
  "tracked st live = index_entries st @ blocks_of live"

definition consistent :: "mm_state \<Rightarrow> ptr list \<Rightarrow> bool" where
  "consistent st live =
     (distinct (tracked st live)
      \<and> (\<forall>x \<in> set (tracked st live). 8 \<le> unat x \<and> block_end st x < 2 ^ 64)
      \<and> (\<forall>x \<in> set (tracked st live). \<forall>y \<in> set (tracked st live). x \<noteq> y \<longrightarrow> apart st x y))"

definition lost :: "mm_state \<Rightarrow> ptr list \<Rightarrow> ptr \<Rightarrow> bool" where
  "lost st live b =
     (b + sizeof_Block \<noteq> 0
      \<and> (\<forall>x \<in> set (tracked st live). unat b + 24 \<le> unat x \<or> block_end st x \<le> unat b))"

text \<open>
  \<open>legit cs live st\<close>: in the calls \<open>cs\<close>, run from the state \<open>st\<close> by a caller holding the
  pointers \<open>live\<close>, every \<^verbatim>\<open>mm_free\<close> is given a pointer the caller holds at that
  moment. \<open>live_after\<close> is what the caller holds after the calls.
\<close>

fun legit :: "call list \<Rightarrow> ptr list \<Rightarrow> mm_state \<Rightarrow> bool" where
  "legit [] live st = True"
| "legit (Malloc n # cs) live st =
     (case mm_malloc n st of (p, st') \<Rightarrow> legit cs (if p = 0 then live else p # live) st')"
| "legit (Free p # cs) live st = (p \<in> set live \<and> legit cs (remove1 p live) (mm_free p st))"

fun live_after :: "call list \<Rightarrow> ptr list \<Rightarrow> mm_state \<Rightarrow> ptr list" where
  "live_after [] live st = live"
| "live_after (Malloc n # cs) live st =
     (case mm_malloc n st of (p, st') \<Rightarrow> live_after cs (if p = 0 then live else p # live) st')"
| "live_after (Free p # cs) live st = live_after cs (remove1 p live) (mm_free p st)"

subsection \<open>Blocks that only shrink\<close>

text \<open>
  A state keeps the arena consistent, and a lost block lost, when every block it tracks
  lies inside a block tracked before (\<open>par\<close> names that block) and two blocks inside the
  same one do not overlap.
\<close>

lemma distinct_sub:
  assumes "mset xs \<subseteq># mset ys" "distinct ys"
  shows "distinct xs"
proof -
  have "count (mset xs) a = (if a \<in> set xs then 1 else 0)" for a
  proof -
    have "count (mset xs) a \<le> count (mset ys) a"
      using assms(1) by (rule mset_subset_eq_count)
    moreover have "count (mset ys) a \<le> 1"
      using assms(2) by (simp add: distinct_count_atmost_1)
    ultimately have le: "count (mset xs) a \<le> 1" by simp
    show ?thesis
    proof (cases "a \<in> set xs")
      case True
      then have "0 < count (mset xs) a" by simp
      with le have "count (mset xs) a = 1" by linarith
      with True show ?thesis by simp
    next
      case False
      then show ?thesis by (simp add: count_eq_zero_iff)
    qed
  qed
  then show ?thesis
    by (simp add: distinct_count_atmost_1)
qed

lemma consistent_refine:
  assumes c: "consistent st L"
    and d: "distinct (tracked st' L')"
    and par: "\<And>y. y \<in> set (tracked st' L') \<Longrightarrow>
               par y \<in> set (tracked st L) \<and> unat (par y) \<le> unat y
               \<and> block_end st' y \<le> block_end st (par y)"
    and sib: "\<And>y z. y \<in> set (tracked st' L') \<Longrightarrow> z \<in> set (tracked st' L') \<Longrightarrow> y \<noteq> z \<Longrightarrow>
               par y = par z \<Longrightarrow> apart st' y z"
  shows "consistent st' L'"
  unfolding consistent_def
proof (intro conjI ballI impI)
  show "distinct (tracked st' L')" by (rule d)
next
  fix y assume y: "y \<in> set (tracked st' L')"
  from par [OF y] c show "8 \<le> unat y" "block_end st' y < 2 ^ 64"
    by (auto simp: consistent_def dest: bspec)
next
  fix y z assume y: "y \<in> set (tracked st' L')" and z: "z \<in> set (tracked st' L')" and ne: "y \<noteq> z"
  show "apart st' y z"
  proof (cases "par y = par z")
    case True
    then show ?thesis by (rule sib [OF y z ne])
  next
    case False
    have py: "par y \<in> set (tracked st L)" "unat (par y) \<le> unat y" "block_end st' y \<le> block_end st (par y)"
      using par [OF y] by simp_all
    have pz: "par z \<in> set (tracked st L)" "unat (par z) \<le> unat z" "block_end st' z \<le> block_end st (par z)"
      using par [OF z] by simp_all
    have "apart st (par y) (par z)"
      using c py(1) pz(1) False by (simp add: consistent_def)
    then show ?thesis
      using py(2,3) pz(2,3) by (auto simp: apart_def)
  qed
qed


lemma lost_refine:
  assumes l: "lost st L b"
    and par: "\<And>y. y \<in> set (tracked st' L') \<Longrightarrow>
               par y \<in> set (tracked st L) \<and> unat (par y) \<le> unat y
               \<and> block_end st' y \<le> block_end st (par y)"
  shows "lost st' L' b"
  unfolding lost_def
proof (intro conjI ballI)
  show "b + sizeof_Block \<noteq> 0" using l by (simp add: lost_def)
next
  fix y assume y: "y \<in> set (tracked st' L')"
  have p: "par y \<in> set (tracked st L)" "unat (par y) \<le> unat y" "block_end st' y \<le> block_end st (par y)"
    using par [OF y] by simp_all
  from l p(1) have "unat b + 24 \<le> unat (par y) \<or> block_end st (par y) \<le> unat b"
    by (simp add: lost_def)
  then show "unat b + 24 \<le> unat y \<or> block_end st' y \<le> unat b"
    using p(2,3) by auto
qed

lemma tracked_sub:
  assumes sub: "mset (tracked st' L') \<subseteq># mset (tracked st L)"
    and sz: "\<And>y. y \<in> set (tracked st' L') \<Longrightarrow> block_size st' y = block_size st y"
    and y: "y \<in> set (tracked st' L')"
  shows "id y \<in> set (tracked st L) \<and> unat (id y) \<le> unat y
         \<and> block_end st' y \<le> block_end st (id y)"
proof -
  have "y \<in># mset (tracked st L)"
    using sub y by (meson in_multiset_in_set mset_subset_eqD)
  then show ?thesis
    using sz [OF y] by (simp add: block_end_def)
qed

lemma consistent_sub:
  assumes c: "consistent st L"
    and sub: "mset (tracked st' L') \<subseteq># mset (tracked st L)"
    and sz: "\<And>y. y \<in> set (tracked st' L') \<Longrightarrow> block_size st' y = block_size st y"
  shows "consistent st' L'"
proof (rule consistent_refine [OF c, where par = id])
  show "distinct (tracked st' L')"
    using sub c by (auto simp: consistent_def intro: distinct_sub)
  show "id y \<in> set (tracked st L) \<and> unat (id y) \<le> unat y \<and> block_end st' y \<le> block_end st (id y)"
    if "y \<in> set (tracked st' L')" for y
    using sub sz that by (rule tracked_sub)
  show "apart st' y z"
    if "y \<in> set (tracked st' L')" "z \<in> set (tracked st' L')" "y \<noteq> z" "id y = id z" for y z
    using that by simp
qed

lemma lost_sub:
  assumes l: "lost st L b"
    and sub: "mset (tracked st' L') \<subseteq># mset (tracked st L)"
    and sz: "\<And>y. y \<in> set (tracked st' L') \<Longrightarrow> block_size st' y = block_size st y"
  shows "lost st' L' b"
proof (rule lost_refine [OF l, where par = id])
  show "id y \<in> set (tracked st L) \<and> unat (id y) \<le> unat y \<and> block_end st' y \<le> block_end st (id y)"
    if "y \<in> set (tracked st' L')" for y
    using sub sz that by (rule tracked_sub)
qed

subsection \<open>\<^verbatim>\<open>mm_malloc\<close> keeps the arena consistent\<close>

lemma root_in_index: "0 < heap_count st \<Longrightarrow> heap st 0 \<in> set (index_entries st)"
  by (auto simp: index_entries_def)

lemma blocks_of_Cons [simp]:
  "blocks_of ((e + sizeof_Block) # L) = e # blocks_of L"
  by (simp add: blocks_of_def)

lemma heap_extract_min_entries_le:
  "mset (index_entries (snd (heap_extract_min st))) \<subseteq># mset (index_entries st)"
proof (cases "heap_count st > 0")
  case True
  then show ?thesis by (simp add: heap_extract_min_entries)
next
  case False
  then show ?thesis by (simp add: heap_extract_min_empty)
qed

lemma mm_malloc_split_entries:
  assumes "s \<noteq> 0" "heap_count st > 0" "heap st 0 \<noteq> 0" "\<not> block_size st (heap st 0) < ALIGN s"
    and "block_size st (heap st 0) \<ge> ALIGN s + sizeof_Block + ALIGN 1"
  shows "mset (index_entries (snd (mm_malloc s st)))
         \<subseteq># add_mset (heap st 0 + sizeof_Block + ALIGN s) (mset (index_entries st) - {#heap st 0#})"
proof -
  let ?X = "snd (heap_extract_min st)"
  have "mset (index_entries (heap_insert b (?X\<lparr>mem := m\<rparr>)))
        \<subseteq># add_mset b (mset (index_entries st) - {#heap st 0#})" for b m
    using assms(2) by (simp add: heap_insert_entries heap_extract_min_entries)
  then show ?thesis
    by (simp add: mm_malloc_split [OF assms] Let_def)
qed

lemma mm_malloc_no_split_entries:
  assumes "s \<noteq> 0" "heap_count st > 0" "heap st 0 \<noteq> 0" "\<not> block_size st (heap st 0) < ALIGN s"
    and "\<not> block_size st (heap st 0) \<ge> ALIGN s + sizeof_Block + ALIGN 1"
  shows "mset (index_entries (snd (mm_malloc s st))) = mset (index_entries st) - {#heap st 0#}"
  using assms(2) by (simp add: mm_malloc_no_split [OF assms] heap_extract_min_entries)

lemma mm_malloc_split_rem:
  assumes "s \<noteq> 0" "heap_count st > 0" "heap st 0 \<noteq> 0" "\<not> block_size st (heap st 0) < ALIGN s"
    and "block_size st (heap st 0) \<ge> ALIGN s + sizeof_Block + ALIGN 1"
    and pay: "unat (heap st 0 + sizeof_Block) = unat (heap st 0) + 24"
    and nb: "unat (heap st 0 + sizeof_Block + ALIGN s) = unat (heap st 0) + 24 + unat (ALIGN s)"
  shows "block_size (snd (mm_malloc s st)) (heap st 0 + sizeof_Block + ALIGN s)
         = block_size st (heap st 0) - ALIGN s - sizeof_Block"
  by (simp add: mm_malloc_split [OF assms(1-5)] Let_def block_size_def pay nb load_memset_disj
        load_upd_other load_store_disj load_store_same)

lemma mm_malloc_fits_other_size:
  assumes "s \<noteq> 0" "heap_count st > 0" "heap st 0 \<noteq> 0" "\<not> block_size st (heap st 0) < ALIGN s"
    and space: "unat (heap st 0) + 24 + unat (block_size st (heap st 0)) < 2 ^ 64"
    and thr: "unat (ALIGN s) + 32 < 2 ^ 64"
    and ap: "apart st (heap st 0) y"
  shows "block_size (snd (mm_malloc s st)) y = block_size st y"
  unfolding block_size_def
proof (rule load_le_cong)
  fix k :: nat assume "k < 8"
  then have "unat y + k < unat (heap st 0)
             \<or> unat (heap st 0) + 24 + unat (block_size st (heap st 0)) \<le> unat y + k"
    using ap by (auto simp: apart_def block_end_def)
  then show "mem (snd (mm_malloc s st)) (unat y + k) = mem st (unat y + k)"
    by (rule mm_malloc_fits_mem_outside [OF assms(1-6)])
qed

lemma mm_malloc_keeps:
  assumes c: "consistent st L"
  shows "consistent (snd (mm_malloc n st))
           (if fst (mm_malloc n st) = 0 then L else fst (mm_malloc n st) # L)
       \<and> (lost st L b \<longrightarrow>
            lost (snd (mm_malloc n st))
              (if fst (mm_malloc n st) = 0 then L else fst (mm_malloc n st) # L) b)"
proof -
  let ?e = "heap st 0" and ?sz = "ALIGN n"
  let ?bs = "block_size st ?e"
  let ?nb = "?e + sizeof_Block + ?sz"
  let ?st' = "snd (mm_malloc n st)"
  consider (same) "n = 0 \<or> heap_count st = 0"
    | (fail) "n \<noteq> 0" "0 < heap_count st" "?e = 0 \<or> ?bs < ?sz"
    | (fits) "n \<noteq> 0" "0 < heap_count st" "?e \<noteq> 0" "\<not> ?bs < ?sz"
    by blast
  then show ?thesis
  proof cases
    case same
    then have "mm_malloc n st = (0, st)"
      by (cases "n = 0") (auto simp: mm_malloc_zero mm_malloc_empty)
    then show ?thesis using c by simp
  next
    case fail
    have eq: "mm_malloc n st = (0, snd (heap_extract_min st))"
      by (rule mm_malloc_too_small [OF fail])
    have sub: "mset (tracked (snd (heap_extract_min st)) L) \<subseteq># mset (tracked st L)"
      by (simp add: tracked_def heap_extract_min_entries_le)
    have sz: "block_size (snd (heap_extract_min st)) y = block_size st y" for y
      by simp
    show ?thesis
      using consistent_sub [OF c sub sz] lost_sub [OF _ sub sz] by (simp add: eq)
  next
    case fits
    note ok = fits
    have e_in: "?e \<in> set (index_entries st)"
      using fits(2) by (rule root_in_index)
    then have e_tr: "?e \<in> set (tracked st L)"
      by (simp add: tracked_def)
    have e8: "8 \<le> unat ?e" and space: "unat ?e + 24 + unat ?bs < 2 ^ 64"
      using c e_tr by (auto simp: consistent_def block_end_def)
    have le: "unat ?sz \<le> unat ?bs"
      using fits(4) by (simp add: word_less_nat_alt)
    have thr: "unat ?sz + 32 < 2 ^ 64"
      using le e8 space by simp
    have pay: "unat (?e + sizeof_Block) = unat ?e + 24"
      using space by (simp add: unat_payload)
    have p: "fst (mm_malloc n st) = ?e + sizeof_Block"
      by (rule mm_malloc_fits_ptr [OF ok])
    have pnz: "?e + sizeof_Block \<noteq> 0"
      using pay by (metis add_is_0 unat_0 zero_neq_numeral)
    have dist: "distinct (tracked st L)"
      using c by (simp add: consistent_def)
    have ap: "apart st ?e y" if "y \<in> set (tracked st L)" "y \<noteq> ?e" for y
      using c e_tr that by (simp add: consistent_def)
    have other: "block_size ?st' y = block_size st y" if "y \<in> set (tracked st L)" "y \<noteq> ?e" for y
      by (rule mm_malloc_fits_other_size [OF ok space thr ap [OF that]])
    have whole: "add_mset ?e (mset (index_entries st) - {#?e#}) = mset (index_entries st)"
      using e_in by simp
    show ?thesis
    proof (cases "?sz + sizeof_Block + ALIGN 1 \<le> ?bs")
      case False
      have own: "block_size ?st' ?e = ?bs"
        by (rule mm_malloc_no_split_size [OF ok False pay])
      have ms: "mset (tracked ?st' ((?e + sizeof_Block) # L)) = mset (tracked st L)"
        using whole by (simp add: tracked_def mm_malloc_no_split_entries [OF ok False])
      then have sub: "mset (tracked ?st' ((?e + sizeof_Block) # L)) \<subseteq># mset (tracked st L)"
        by simp
      have sz: "block_size ?st' y = block_size st y"
        if "y \<in> set (tracked ?st' ((?e + sizeof_Block) # L))" for y
      proof -
        have "y \<in> set (tracked st L)"
          using that ms by (metis set_mset_mset)
        then show ?thesis
          using own other by (cases "y = ?e") simp_all
      qed
      show ?thesis
        using consistent_sub [OF c sub sz] lost_sub [OF _ sub sz] pnz by (simp add: p)
    next
      case True
      then have big: "unat ?sz + 24 + 8 \<le> unat ?bs"
        using split_threshold [OF thr, of ?bs] by simp
      have nb: "unat ?nb = unat ?e + 24 + unat ?sz"
        using space big by (simp add: unat_next_block)
      have own: "block_size ?st' ?e = ?sz"
        by (rule mm_malloc_split_size [OF ok True pay])
      have "block_size ?st' ?nb = ?bs - ?sz - sizeof_Block"
        by (rule mm_malloc_split_rem [OF ok True pay nb])
      then have rem: "unat (block_size ?st' ?nb) = unat ?bs - unat ?sz - 24"
        using big by (simp add: remainder_size)
      have nb_new: "?nb \<notin> set (tracked st L)"
      proof
        assume in_tr: "?nb \<in> set (tracked st L)"
        have "?nb \<noteq> ?e" using nb by (metis add_le_same_cancel1 le_add1 not_numeral_le_zero trans_le_add1 add.assoc)
        from ap [OF in_tr this] show False
          using nb big by (auto simp: apart_def block_end_def)
      qed
      let ?L' = "(?e + sizeof_Block) # L"
      have sub: "mset (tracked ?st' ?L') \<subseteq># mset (?nb # tracked st L)"
      proof -
        have "mset (tracked ?st' ?L') = add_mset ?e (mset (index_entries ?st') + mset (blocks_of L))"
          by (simp add: tracked_def)
        also have "\<dots> \<subseteq># add_mset ?e (add_mset ?nb (mset (index_entries st) - {#?e#}) + mset (blocks_of L))"
          using mm_malloc_split_entries [OF ok True] by (simp add: mset_subset_eq_mono_add_right_cancel)
        also have "\<dots> = add_mset ?nb (add_mset ?e (mset (index_entries st) - {#?e#}) + mset (blocks_of L))"
          by simp
        also have "\<dots> = mset (?nb # tracked st L)"
          by (simp only: whole) (simp add: tracked_def)
        finally show ?thesis .
      qed
      have d: "distinct (tracked ?st' ?L')"
        using sub by (rule distinct_sub) (simp add: dist nb_new)
      have mem: "y = ?nb \<or> y \<in> set (tracked st L)" if "y \<in> set (tracked ?st' ?L')" for y
      proof -
        have "y \<in># mset (?nb # tracked st L)"
          using sub that by (meson in_multiset_in_set mset_subset_eqD)
        then show ?thesis by auto
      qed
      define par where "par y = (if y = ?nb then ?e else y)" for y
      have parp: "par y \<in> set (tracked st L) \<and> unat (par y) \<le> unat y
                  \<and> block_end ?st' y \<le> block_end st (par y)"
        if "y \<in> set (tracked ?st' ?L')" for y
      proof (cases "y = ?nb")
        case True
        then show ?thesis
          using e_tr nb rem big by (simp add: par_def block_end_def)
      next
        case ne: False
        with mem [OF that] have y: "y \<in> set (tracked st L)" by simp
        show ?thesis
        proof (cases "y = ?e")
          case True
          then show ?thesis
            using ne e_tr own le by (simp add: par_def block_end_def)
        next
          case False
          then show ?thesis
            using ne y other [OF y False] by (simp add: par_def block_end_def)
        qed
      qed
      have sib: "apart ?st' y z"
        if "y \<in> set (tracked ?st' ?L')" "z \<in> set (tracked ?st' ?L')" "y \<noteq> z" "par y = par z" for y z
      proof -
        have "(y = ?e \<and> z = ?nb) \<or> (y = ?nb \<and> z = ?e)"
          using that(3,4) by (auto simp: par_def split: if_splits)
        then show ?thesis
          using own nb by (auto simp: apart_def block_end_def)
      qed
      have "consistent ?st' ?L'"
        using c d parp sib by (rule consistent_refine)
      moreover have "lost ?st' ?L' b" if "lost st L b"
        using that parp by (rule lost_refine)
      ultimately show ?thesis
        using pnz by (simp add: p)
    qed
  qed
qed

subsection \<open>\<^verbatim>\<open>mm_free\<close> keeps the arena consistent\<close>

lemma remove_at_entries:
  assumes "i < heap_count st"
  shows "mset (index_entries (st\<lparr>heap_count := heap_count st - 1,
                                 heap := (heap st)(i := heap st (heap_count st - 1))\<rparr>))
         = mset (index_entries st) - {#heap st i#}"
proof -
  obtain k where k: "heap_count st = Suc k"
    using assms by (cases "heap_count st") auto
  define ys where "ys = map (heap st) [0..<k]"
  have len: "length ys = k" by (simp add: ys_def)
  have e1: "index_entries st = ys @ [heap st k]"
    using k by (simp add: index_entries_def ys_def)
  let ?st3 = "st\<lparr>heap_count := k, heap := (heap st)(i := heap st k)\<rparr>"
  have "mset (index_entries ?st3) = mset (index_entries st) - {#heap st i#}"
  proof (cases "i = k")
    case True
    have "index_entries ?st3 = ys"
      unfolding ys_def index_entries_def using True by simp
    then show ?thesis using e1 True by simp
  next
    case False
    then have lt: "i < k" using assms k by simp
    have e2: "index_entries ?st3 = ys[i := heap st k]"
      unfolding ys_def index_entries_def
      by (intro nth_equalityI) (auto simp: nth_list_update simp del: upt_Suc)
    have yi: "ys ! i = heap st i"
      using lt by (simp add: ys_def del: upt_Suc)
    have "mset (ys[i := heap st k]) = add_mset (heap st k) (mset ys - {#ys ! i#})"
      using lt len by (simp add: mset_update)
    moreover have "ys ! i \<in># mset ys"
      using lt len by simp
    ultimately show ?thesis
      using e1 e2 yi by simp
  qed
  then show ?thesis using k by simp
qed

lemma merge_at_entries_mset:
  assumes "i < heap_count st"
  shows "mset (index_entries (merge_at i st)) = mset (index_entries st) - {#heap st i#}"
proof -
  let ?st1 = "set_size (heap st i)
      (block_size st (heap st i)
        + (sizeof_Block + block_size st (heap st i + sizeof_Block + block_size st (heap st i)))) st"
  have c: "heap_count ?st1 = heap_count st" "heap ?st1 = heap st"
    by (simp_all add: set_size_def)
  have "mset (index_entries (merge_at i st))
        = mset (index_entries (?st1\<lparr>heap_count := heap_count ?st1 - 1,
                                    heap := (heap ?st1)(i := heap ?st1 (heap_count ?st1 - 1))\<rparr>))"
    by (simp add: merge_at_def Let_def index_entries_heapify_down)
  also have "\<dots> = mset (index_entries ?st1) - {#heap ?st1 i#}"
    by (rule remove_at_entries) (simp add: c assms)
  also have "\<dots> = mset (index_entries st) - {#heap st i#}"
    by (simp add: index_entries_def c)
  finally show ?thesis .
qed

lemma merge_at_size_other:
  "unat (heap st i) + 8 \<le> unat y \<or> unat y + 8 \<le> unat (heap st i) \<Longrightarrow>
   block_size (merge_at i st) y = block_size st y"
  by (simp add: block_size_def merge_at_mem load_store_disj)

lemma merge_at_keeps:
  assumes c: "consistent st L" and lt: "i < heap_count st"
  shows "consistent (merge_at i st) L \<and> (lost st L b \<longrightarrow> lost (merge_at i st) L b)"
proof -
  let ?cur = "heap st i" and ?st' = "merge_at i st"
  have cur_in: "?cur \<in> set (index_entries st)"
    using lt by (auto simp: index_entries_def)
  then have cur_tr: "?cur \<in> set (tracked st L)"
    by (simp add: tracked_def)
  have ms: "mset (tracked ?st' L) = mset (tracked st L) - {#?cur#}"
    using cur_in by (simp add: tracked_def merge_at_entries_mset [OF lt])
  then have sub: "mset (tracked ?st' L) \<subseteq># mset (tracked st L)"
    by simp
  have "count (mset (tracked st L)) ?cur \<le> 1"
    using c by (simp add: consistent_def distinct_count_atmost_1)
  then have "count (mset (tracked ?st' L)) ?cur = 0"
    by (simp add: ms)
  then have gone: "?cur \<notin> set (tracked ?st' L)"
    by (simp add: count_eq_zero_iff)
  have sz: "block_size ?st' y = block_size st y" if "y \<in> set (tracked ?st' L)" for y
  proof -
    have y: "y \<in> set (tracked st L)"
      using sub that by (meson in_multiset_in_set mset_subset_eqD)
    have "y \<noteq> ?cur" using that gone by auto
    then have "apart st ?cur y"
      using c cur_tr y by (simp add: consistent_def)
    then have "unat ?cur + 8 \<le> unat y \<or> unat y + 8 \<le> unat ?cur"
      by (auto simp: apart_def block_end_def)
    then show ?thesis by (rule merge_at_size_other)
  qed
  show ?thesis
    using consistent_sub [OF c sub sz] lost_sub [OF _ sub sz] by simp
qed

lemma coalesce_keeps:
  "consistent st L \<Longrightarrow>
   consistent (coalesce i st) L \<and> (lost st L b \<longrightarrow> lost (coalesce i st) L b)"
proof (induction i st rule: coalesce_induct)
  case (step i st)
  show ?case
  proof (cases "i < heap_count st")
    case False
    then show ?thesis using step.prems by (subst (1 2) coalesce_unfold) simp
  next
    case lt: True
    show ?thesis
    proof (cases "mergeable i st")
      case True
      have m: "consistent (merge_at i st) L" "lost st L b \<longrightarrow> lost (merge_at i st) L b"
        using merge_at_keeps [OF step.prems lt] by simp_all
      from step.IH(1) [OF lt True m(1)] m(2) show ?thesis
        using lt True by (subst (1 2) coalesce_unfold) simp
    next
      case False
      from step.IH(2) [OF lt False step.prems] show ?thesis
        using lt False by (subst (1 2) coalesce_unfold) simp
    qed
  qed
qed

lemma blocks_of_remove1:
  "p \<in> set L \<Longrightarrow> mset (blocks_of (remove1 p L)) = mset (blocks_of L) - {#p - sizeof_Block#}"
  by (simp add: blocks_of_def image_mset_Diff)

lemma mm_free_keeps:
  assumes c: "consistent st L" and p: "p \<in> set L"
  shows "consistent (mm_free p st) (remove1 p L)
       \<and> (lost st L b \<longrightarrow> lost (mm_free p st) (remove1 p L) b)"
proof -
  let ?x = "p - sizeof_Block" and ?L' = "remove1 p L"
  have x_in: "?x \<in># mset (blocks_of L)"
    using p by (simp add: blocks_of_def)
  then have x_tr: "?x \<in> set (tracked st L)"
    by (simp add: tracked_def)
  have bl: "mset (blocks_of ?L') = mset (blocks_of L) - {#?x#}"
    using p by (rule blocks_of_remove1)
  show ?thesis
  proof (cases "p = 0 \<or> p < heap_start st \<or> heap_start st + heap_size st \<le> p")
    case True
    then have eq: "mm_free p st = st"
      by (auto simp: mm_free_def)
    have sub: "mset (tracked st ?L') \<subseteq># mset (tracked st L)"
      by (simp add: tracked_def bl)
    show ?thesis
      using consistent_sub [OF c sub] lost_sub [OF _ sub] by (simp add: eq)
  next
    case False
    let ?st1 = "set_is_free ?x True st"
    let ?st2 = "heap_insert ?x ?st1"
    have eq: "mm_free p st = coalesce 0 ?st2"
      using False by (simp add: mm_free_inside)
    have e1: "index_entries ?st1 = index_entries st"
      by (simp add: set_is_free_def)
    have "mset (index_entries ?st2) \<subseteq># add_mset ?x (mset (index_entries st))"
      by (simp add: heap_insert_entries e1)
    then have "mset (index_entries ?st2) + (mset (blocks_of L) - {#?x#})
               \<subseteq># add_mset ?x (mset (index_entries st)) + (mset (blocks_of L) - {#?x#})"
      by (rule mset_subset_eq_mono_add_right_cancel [THEN iffD2])
    also have "\<dots> = mset (index_entries st) + mset (blocks_of L)"
      using x_in by simp
    finally have sub: "mset (tracked ?st2 ?L') \<subseteq># mset (tracked st L)"
      by (simp add: tracked_def bl)
    have sz: "block_size ?st2 y = block_size st y" if "y \<in> set (tracked ?st2 ?L')" for y
    proof -
      have y: "y \<in> set (tracked st L)"
        using sub that by (meson in_multiset_in_set mset_subset_eqD)
      have "unat ?x + 8 < unat y \<or> unat y + 8 \<le> unat ?x + 8"
      proof (cases "y = ?x")
        case True
        then show ?thesis by simp
      next
        case False
        then have "apart st ?x y"
          using c x_tr y by (simp add: consistent_def)
        then show ?thesis
          by (auto simp: apart_def block_end_def)
      qed
      then show ?thesis
        by (simp add: block_size_def heap_insert_frame set_is_free_def load_upd_other)
    qed
    have c2: "consistent ?st2 ?L'"
      by (rule consistent_sub [OF c sub sz])
    have l2: "lost ?st2 ?L' b" if "lost st L b"
      using that sub sz by (rule lost_sub)
    show ?thesis
      using coalesce_keeps [OF c2, of 0 b] l2 by (simp add: eq)
  qed
qed

subsection \<open>Sequences of calls\<close>



lemma run_Malloc:
  "fst (run (Malloc n # cs) st) = fst (mm_malloc n st) # fst (run cs (snd (mm_malloc n st)))"
  "snd (run (Malloc n # cs) st) = snd (run cs (snd (mm_malloc n st)))"
  by (simp_all add: split_beta)

lemma legit_Malloc:
  "legit (Malloc n # cs) L st =
     legit cs (if fst (mm_malloc n st) = 0 then L else fst (mm_malloc n st) # L) (snd (mm_malloc n st))"
  "live_after (Malloc n # cs) L st =
     live_after cs (if fst (mm_malloc n st) = 0 then L else fst (mm_malloc n st) # L) (snd (mm_malloc n st))"
  by (simp_all add: split_beta)

lemma legit_run_consistent:
  "consistent st L \<Longrightarrow> legit cs L st \<Longrightarrow> consistent (snd (run cs st)) (live_after cs L st)"
proof (induction cs arbitrary: st L)
  case Nil
  then show ?case by simp
next
  case (Cons c cs)
  show ?case
  proof (cases c)
    case (Malloc n)
    let ?L' = "if fst (mm_malloc n st) = 0 then L else fst (mm_malloc n st) # L"
    have "consistent (snd (mm_malloc n st)) ?L'"
      using mm_malloc_keeps [OF Cons.prems(1)] by blast
    moreover have "legit cs ?L' (snd (mm_malloc n st))"
      using Cons.prems(2) by (simp only: Malloc legit_Malloc)
    ultimately have "consistent (snd (run cs (snd (mm_malloc n st)))) (live_after cs ?L' (snd (mm_malloc n st)))"
      by (rule Cons.IH)
    then show ?thesis
      by (simp only: Malloc legit_Malloc run_Malloc)
  next
    case (Free p)
    have p: "p \<in> set L" and rest: "legit cs (remove1 p L) (mm_free p st)"
      using Cons.prems(2) by (simp_all add: Free)
    have "consistent (mm_free p st) (remove1 p L)"
      using mm_free_keeps [OF Cons.prems(1) p] by blast
    from Cons.IH [OF this rest] show ?thesis
      by (simp add: Free)
  qed
qed


lemma mm_init_consistent:
  assumes "\<not> n < sizeof_Block" "brk \<noteq> - 1" "8 \<le> unat brk" "unat brk + unat n < 2 ^ 64"
  shows "consistent (mm_init n brk (initial_state m)) []"
proof -
  have "mm_init n brk (initial_state m) =
          heap_insert brk
            ((initial_state m)\<lparr>heap_start := brk, heap_size := n,
               mem := store_le ((store_le (mem (initial_state m)) (unat brk) 8 (n - sizeof_Block))
                                  (unat brk + 8 := 1)) (unat brk + 16) 8 0\<rparr>)"
    using assms(1,2) by (rule mm_init_ok)
  then have idx: "index_entries (mm_init n brk (initial_state m)) = [brk]"
    by (simp add: heap_insert_empty initial_state_def index_entries_def)
  have "sizeof_Block \<le> n" using assms(1) by simp
  then have "unat (n - sizeof_Block) = unat n - 24"
    by (simp add: unat_sub_le)
  moreover have "24 \<le> unat n"
    using \<open>sizeof_Block \<le> n\<close> by (simp add: word_le_nat_alt)
  ultimately have "block_end (mm_init n brk (initial_state m)) brk = unat brk + unat n"
    by (simp add: block_end_def mm_init_ok_header(1) [OF assms(1,2)])
  then show ?thesis
    using assms(3,4) by (simp add: consistent_def tracked_def blocks_of_def idx)
qed

lemma reachable_consistent:
  assumes "\<not> n < sizeof_Block" "brk \<noteq> - 1" "8 \<le> unat brk" "unat brk + unat n < 2 ^ 64"
    and "legit cs [] (mm_init n brk (initial_state m))"
  shows "consistent (snd (run cs (mm_init n brk (initial_state m))))
           (live_after cs [] (mm_init n brk (initial_state m)))"
  using mm_init_consistent [OF assms(1-4)] assms(5) by (rule legit_run_consistent)



section \<open>Properties of the allocator\<close>

subsection \<open>C1\<close>

text \<open>
  C1 fails on the code. After the two frees of session B the block at 4096 is flagged
  free and is not in the index, and the index entry 4224 lies inside that block's
  payload. A failed allocation does the same: \<^verbatim>\<open>mm_malloc(2000)\<close> on a fresh arena of
  1024 bytes returns null and leaves the only block flagged free with the index empty.
\<close>

theorem free_block_missing_from_index:
  "block_is_free session_b 4096 \<and> 4096 \<notin> set (index_entries session_b)
   \<and> block_size session_b 4096 = 328 \<and> index_entries session_b = [4224]
   \<and> fst (mm_malloc 2000 arena_1024) = 0
   \<and> block_is_free (snd (mm_malloc 2000 arena_1024)) 4096
   \<and> index_entries (snd (mm_malloc 2000 arena_1024)) = []"
proof -
  have "block_is_free session_b 4096 \<and> block_size session_b 4096 = 328
      \<and> index_entries session_b = [4224]"
    by (simp add: session_b_state block_size_def block_is_free_def index_entries_def
          session_b_headers)
  moreover have "mm_malloc 2000 arena_1024 =
      (0, \<lparr>heap_start = 4096, heap_size = 1024, heap = (\<lambda>_. 0)(0 := 4096),
           heap_count = 0, mem = mem_a0 (\<lambda>_. 0)\<rparr>)"
    by (simp add: arena_1024_def session_a_init session_a_malloc_huge)
  moreover have "mem_a0 (\<lambda>_. 0) 4104 = 1"
    by (simp add: mem_a0_def mem_simps)
  ultimately show ?thesis
    by (simp add: block_is_free_def index_entries_def)
qed

subsection \<open>C2\<close>

text \<open>
  C2 fails on the code. In session B the blocks at 4096 (payload 104, returned as 4120)
  and at 4224 (payload 200, returned as 4248) are allocated, adjacent, and fill the
  arena. After both are freed, in either order, the header at 4096 does carry the merged
  size \<open>104 + 200 + 24 = 328\<close>, but the entry \<^verbatim>\<open>mm_free\<close> removed from the index is the
  merged block itself: the index holds only the absorbed neighbour at 4224 with its old
  size 200, and \<^verbatim>\<open>mm_malloc(304)\<close> returns null.
\<close>

theorem coalescing_round_trip_fails:
  "fst (mm_malloc 100 (mm_init 352 4096 (initial_state (\<lambda>_. 0)))) = 4120
   \<and> fst (mm_malloc 200 (snd (mm_malloc 100 (mm_init 352 4096 (initial_state (\<lambda>_. 0)))))) = 4248
   \<and> block_size session_b_allocated 4096 = 104 \<and> \<not> block_is_free session_b_allocated 4096
   \<and> block_size session_b_allocated 4224 = 200 \<and> \<not> block_is_free session_b_allocated 4224
   \<and> (4096 :: ptr) + sizeof_Block + 104 = 4224
   \<and> block_size session_b 4096 = 328
   \<and> index_entries session_b = [4224] \<and> block_size session_b 4224 = 200
   \<and> fst (mm_malloc (104 + 200) session_b) = 0
   \<and> block_size session_b_reversed 4096 = 328
   \<and> index_entries session_b_reversed = [4224] \<and> block_size session_b_reversed 4224 = 200
   \<and> fst (mm_malloc (104 + 200) session_b_reversed) = 0"
proof -
  have "fst (mm_malloc 100 (mm_init 352 4096 (initial_state (\<lambda>_. 0)))) = 4120"
    and "fst (mm_malloc 200 (snd (mm_malloc 100 (mm_init 352 4096 (initial_state (\<lambda>_. 0)))))) = 4248"
    by (simp_all add: session_b_init session_b_malloc1 session_b_malloc2)
  moreover have "block_size session_b_allocated 4096 = 104 \<and> \<not> block_is_free session_b_allocated 4096
      \<and> block_size session_b_allocated 4224 = 200 \<and> \<not> block_is_free session_b_allocated 4224"
    by (simp add: session_b_allocated_state block_size_def block_is_free_def session_b_headers)
  moreover have "(4096 :: ptr) + sizeof_Block + 104 = 4224"
    by (simp add: sizeof_Block_def)
  moreover have "block_size session_b 4096 = 328 \<and> index_entries session_b = [4224]
      \<and> block_size session_b 4224 = 200"
    by (simp add: session_b_state block_size_def index_entries_def session_b_headers)
  moreover have "fst (mm_malloc (104 + 200) session_b) = 0"
    by (simp add: session_b_state session_b_malloc3)
  moreover have "block_size session_b_reversed 4096 = 328 \<and> index_entries session_b_reversed = [4224]
      \<and> block_size session_b_reversed 4224 = 200"
    by (simp add: session_b_reversed_state block_size_def index_entries_def
          session_b_headers_reversed)
  moreover have "fst (mm_malloc (104 + 200) session_b_reversed) = 0"
    by (simp add: session_b_reversed_state session_b_malloc3_reversed)
  ultimately show ?thesis
    by simp
qed

subsection \<open>C3\<close>

text \<open>
  C3 fails on the code. Session E is ten successful allocations and seven frees of
  pointers they returned. It leaves four blocks in the index, all flagged free, of
  payload sizes 16, 8, 16 and 320 in array order: the root is not the smallest, because
  \<^verbatim>\<open>mm_free\<close> moved the last entry into a slot it emptied and only sifted it down.
  \<^verbatim>\<open>mm_malloc(16)\<close> takes the root and returns 4408, although the smallest free block
  has 8 bytes, fewer than \<open>ALIGN 16 = 16\<close>.
\<close>

theorem mm_malloc_root_not_smallest:
  "fst (run session_e_calls (mm_init 704 4096 (initial_state (\<lambda>_. 0))))
     = [4120, 4160, 4192, 4224, 4256, 4304, 4336, 4376, 4408, 4448]
   \<and> index_entries session_e = [4384, 4136, 4312, 4456]
   \<and> index_sizes session_e = [16, 8, 16, 320]
   \<and> block_is_free session_e 4136
   \<and> Min (set (index_sizes session_e)) = 8 \<and> ALIGN 16 = 16
   \<and> fst (mm_malloc 16 session_e) = 4408"
proof -
  have sizes: "index_sizes session_e = [16, 8, 16, 320]"
    by (simp add: index_sizes_def session_e_index)
  have al: "ALIGN 16 = 16"
    by (simp add: ALIGN_def)
  have "fst (mm_malloc 16 session_e) = heap session_e 0 + sizeof_Block"
    by (rule mm_malloc_fits_ptr) (simp_all add: session_e_index al)
  then have "fst (mm_malloc 16 session_e) = 4408"
    by (simp add: session_e_index sizeof_Block_def)
  with sizes al show ?thesis
    by (simp add: session_e_index)
qed

text \<open>
  On an index in heap order the root is the smallest block. There, for a request
  \<open>s > 0\<close> and entries that are real addresses (neither the header nor its payload is at
  address 0), \<^verbatim>\<open>mm_malloc(s)\<close> returns null exactly when the index is empty or the
  smallest payload size in the whole index is less than \<open>ALIGN s\<close>: only that one block is
  looked at, whatever else the index holds. Session A is such a state.
\<close>

theorem mm_malloc_null_iff:
  assumes "s \<noteq> 0" "heap_ordered st"
    and "\<forall>e \<in> set (index_entries st). e \<noteq> 0 \<and> e + sizeof_Block \<noteq> 0"
  shows "fst (mm_malloc s st) = 0
         \<longleftrightarrow> heap_count st = 0 \<or> Min (set (index_sizes st)) < ALIGN s"
proof (cases "heap_count st = 0")
  case True
  then show ?thesis using assms(1) by (simp add: mm_malloc_empty)
next
  case False
  then have pos: "heap_count st > 0" by simp
  then have "heap st 0 \<in> set (index_entries st)"
    by (auto simp: index_entries_def)
  with assms(3) have nz: "heap st 0 \<noteq> 0" "heap st 0 + sizeof_Block \<noteq> 0" by auto
  have m: "Min (set (index_sizes st)) = block_size st (heap st 0)"
    by (rule heap_ordered_Min [OF assms(2) pos])
  show ?thesis
  proof (cases "block_size st (heap st 0) < ALIGN s")
    case True
    then show ?thesis using assms(1) pos m by (simp add: mm_malloc_too_small)
  next
    case fits: False
    then show ?thesis
      using False m nz mm_malloc_fits_ptr [OF assms(1) pos nz(1) fits] by simp
  qed
qed

theorem mm_malloc_null_iff_witness:
  "(100 :: size_t) \<noteq> 0 \<and> heap_ordered session_a
   \<and> index_entries session_a = [4096, 4160]
   \<and> index_sizes session_a = [8, 936] \<and> ALIGN 100 = 104
   \<and> fst (mm_malloc 100 session_a) = 0"
proof -
  have "{1..<heap_count session_a} = {Suc 0}"
    by (auto simp: session_a_index)
  then have ord: "heap_ordered session_a"
    by (simp add: heap_ordered_def session_a_index)
  have ptrs: "\<forall>e \<in> set (index_entries session_a). e \<noteq> 0 \<and> e + sizeof_Block \<noteq> 0"
    by (simp add: session_a_index sizeof_Block_def)
  have sizes: "index_sizes session_a = [8, 936]"
    by (simp add: index_sizes_def session_a_index)
  have al: "ALIGN 100 = 104"
    by (simp add: ALIGN_def)
  have "fst (mm_malloc 100 session_a) = 0"
    using mm_malloc_null_iff [of 100 session_a, OF _ ord ptrs]
    by (simp add: sizes al session_a_index)
  with ord sizes al show ?thesis by (simp add: session_a_index)
qed

subsection \<open>C4\<close>

text \<open>
  C4. Take a request \<open>s > 0\<close> that the extracted block \<open>b\<close> (payload size \<open>bs\<close>) can
  hold, with the block below the top of the address space and \<open>ALIGN s + 32\<close>
  representable. If \<open>bs \<ge> ALIGN s + 24 + 8\<close> the block is split: its payload size
  becomes \<open>ALIGN s\<close>, the new block's header is \<open>24 + ALIGN s\<close> bytes after the header of
  \<open>b\<close>, its payload size is \<open>bs - ALIGN s - 24\<close>, it is flagged free and it is in the
  index. Below that threshold there is no split: \<open>b\<close> keeps its payload size and the
  index only loses \<open>b\<close>.
\<close>

theorem mm_malloc_split_behaviour:
  assumes "s \<noteq> 0" "0 < heap_count st" "heap_count st \<le> MAX_HEAP_SIZE" "heap st 0 \<noteq> 0"
    and fits: "unat (ALIGN s) \<le> unat (block_size st (heap st 0))"
    and space: "unat (heap st 0) + 24 + unat (block_size st (heap st 0)) < 2 ^ 64"
    and thr: "unat (ALIGN s) + 32 < 2 ^ 64"
  shows "(unat (ALIGN s) + 24 + 8 \<le> unat (block_size st (heap st 0)) \<longrightarrow>
            block_size (snd (mm_malloc s st)) (heap st 0) = ALIGN s
          \<and> unat (heap st 0 + sizeof_Block + ALIGN s) = unat (heap st 0) + 24 + unat (ALIGN s)
          \<and> unat (block_size (snd (mm_malloc s st)) (heap st 0 + sizeof_Block + ALIGN s))
              = unat (block_size st (heap st 0)) - unat (ALIGN s) - 24
          \<and> block_is_free (snd (mm_malloc s st)) (heap st 0 + sizeof_Block + ALIGN s)
          \<and> heap st 0 + sizeof_Block + ALIGN s \<in> set (index_entries (snd (mm_malloc s st))))
       \<and> (unat (block_size st (heap st 0)) < unat (ALIGN s) + 24 + 8 \<longrightarrow>
            block_size (snd (mm_malloc s st)) (heap st 0) = block_size st (heap st 0)
          \<and> mset (index_entries (snd (mm_malloc s st))) = mset (index_entries st) - {#heap st 0#})"
proof (intro conjI impI)
  let ?b = "heap st 0" and ?sz = "ALIGN s"
  let ?bs = "block_size st ?b"
  let ?nb = "?b + sizeof_Block + ?sz"
  have nlt: "\<not> ?bs < ?sz" using fits by (simp add: word_less_nat_alt)
  have pay: "unat (?b + sizeof_Block) = unat ?b + 24"
    using space by (simp add: unat_payload)
  {
    assume big: "unat ?sz + 24 + 8 \<le> unat ?bs"
    then have cond: "?sz + sizeof_Block + ALIGN 1 \<le> ?bs"
      using split_threshold [OF thr, of ?bs] by simp
    have nb: "unat ?nb = unat ?b + 24 + unat ?sz"
      using space big by (simp add: unat_next_block)
    note st' = mm_malloc_split [OF assms(1,2,4) nlt cond]
    have cnt: "heap_count (snd (heap_extract_min st)) < MAX_HEAP_SIZE"
      using assms(2,3) by (simp add: heap_extract_min_frame)
    show "block_size (snd (mm_malloc s st)) ?b = ?sz"
      by (simp add: st' Let_def block_size_def pay load_memset_disj load_upd_other load_store_same)
    show "unat ?nb = unat ?b + 24 + unat ?sz" by (rule nb)
    have "block_size (snd (mm_malloc s st)) ?nb = ?bs - ?sz - sizeof_Block"
      by (simp add: st' Let_def block_size_def pay nb load_memset_disj load_upd_other
            load_store_disj load_store_same)
    then show "unat (block_size (snd (mm_malloc s st)) ?nb) = unat ?bs - unat ?sz - 24"
      using big by (simp add: remainder_size)
    show "block_is_free (snd (mm_malloc s st)) ?nb"
      by (simp add: st' Let_def block_is_free_def pay nb memset_zero_def store_le_other)
    show "?nb \<in> set (index_entries (snd (mm_malloc s st)))"
      using cnt by (simp add: st' Let_def heap_insert_member)
  }
  {
    assume small: "unat ?bs < unat ?sz + 24 + 8"
    then have cond: "\<not> ?sz + sizeof_Block + ALIGN 1 \<le> ?bs"
      using split_threshold [OF thr, of ?bs] by simp
    note st' = mm_malloc_no_split [OF assms(1,2,4) nlt cond]
    show "block_size (snd (mm_malloc s st)) ?b = ?bs"
      by (simp add: st' block_size_def pay load_memset_disj load_upd_other)
    show "mset (index_entries (snd (mm_malloc s st))) = mset (index_entries st) - {#?b#}"
      using assms(2) by (simp add: st' heap_extract_min_entries)
  }
qed

theorem mm_malloc_split_behaviour_witness:
  "(100 :: size_t) \<noteq> 0 \<and> (992 :: size_t) \<noteq> 0
   \<and> 0 < heap_count arena_1024 \<and> heap_count arena_1024 \<le> MAX_HEAP_SIZE
   \<and> heap arena_1024 0 = 4096 \<and> block_size arena_1024 4096 = 1000
   \<and> ALIGN 100 = 104 \<and> ALIGN 992 = 992
   \<and> block_size (snd (mm_malloc 100 arena_1024)) 4096 = 104
   \<and> unat (block_size (snd (mm_malloc 100 arena_1024)) 4224) = 872
   \<and> block_is_free (snd (mm_malloc 100 arena_1024)) 4224
   \<and> 4224 \<in> set (index_entries (snd (mm_malloc 100 arena_1024)))
   \<and> block_size (snd (mm_malloc 992 arena_1024)) 4096 = 1000
   \<and> mset (index_entries (snd (mm_malloc 992 arena_1024))) = {#}"
proof -
  have al: "ALIGN 100 = 104" "ALIGN 992 = 992"
    by (simp_all add: ALIGN_def)
  have split:
    "block_size (snd (mm_malloc 100 arena_1024)) 4096 = 104
     \<and> unat (block_size (snd (mm_malloc 100 arena_1024)) 4224) = 872
     \<and> block_is_free (snd (mm_malloc 100 arena_1024)) 4224
     \<and> 4224 \<in> set (index_entries (snd (mm_malloc 100 arena_1024)))"
    using mm_malloc_split_behaviour [of 100 arena_1024]
    by (simp add: arena_1024_index al MAX_HEAP_SIZE_def sizeof_Block_def)
  have whole:
    "block_size (snd (mm_malloc 992 arena_1024)) 4096 = 1000
     \<and> mset (index_entries (snd (mm_malloc 992 arena_1024))) = {#}"
    using mm_malloc_split_behaviour [of 992 arena_1024]
    by (simp add: arena_1024_index al MAX_HEAP_SIZE_def)
  from al split whole show ?thesis
    by (simp add: arena_1024_index MAX_HEAP_SIZE_def)
qed

subsection \<open>C5\<close>

text \<open>
  C5 fails on the code. In session F the caller holds \<open>p1 = 4120\<close> (block at 4096,
  payload 8); its neighbour at 4128 has been allocated and freed, and the only index
  entry is the block at 4160 (payload 264). \<^verbatim>\<open>mm_realloc(p1, 100)\<close> allocates from that
  block, copies the 8 bytes and returns 4184, whose block at 4160 is in use with payload
  104. The old block is not freed: \<^verbatim>\<open>mm_free\<close> flags it free and inserts it, then merges
  it with the neighbour at 4128 and removes it, the merged block, from the index. It is
  left flagged free, absent from the index, and its size field 328 spans the block just
  returned.
\<close>

theorem mm_realloc_old_block_lost:
  "fst (mm_malloc 8 (mm_init 352 4096 (initial_state (\<lambda>_. 0)))) = 4120
   \<and> block_size session_f (4120 - sizeof_Block) = 8
   \<and> \<not> block_is_free session_f (4120 - sizeof_Block)
   \<and> index_entries session_f = [4160] \<and> block_size session_f 4160 = 264
   \<and> fst (mm_realloc 4120 100 session_f) = 4184
   \<and> \<not> block_is_free (snd (mm_realloc 4120 100 session_f)) (4184 - sizeof_Block)
   \<and> block_size (snd (mm_realloc 4120 100 session_f)) (4184 - sizeof_Block) = 104
   \<and> block_is_free (snd (mm_realloc 4120 100 session_f)) (4120 - sizeof_Block)
   \<and> 4120 - sizeof_Block \<notin> set (index_entries (snd (mm_realloc 4120 100 session_f)))
   \<and> index_entries (snd (mm_realloc 4120 100 session_f)) = [4288]
   \<and> block_size (snd (mm_realloc 4120 100 session_f)) (4120 - sizeof_Block) = 328
   \<and> unat (4120 - sizeof_Block) + 24 + 328 = unat (4184 - sizeof_Block) + 24 + 104 + 24 + 136"
proof -
  have ob: "(4120 :: ptr) - sizeof_Block = 4096" and nb: "(4184 :: ptr) - sizeof_Block = 4160"
    by (simp_all add: sizeof_Block_def)
  have before: "fst (mm_malloc 8 (mm_init 352 4096 (initial_state (\<lambda>_. 0)))) = 4120"
    by (simp add: session_b_init session_f_malloc1)
  have after: "mm_realloc 4120 100 session_f =
      (4184, \<lparr>heap_start = 4096, heap_size = 352, heap = (\<lambda>_. 0)(Suc 0 := 4288, 0 := 4288),
              heap_count = Suc 0, mem = mem_f4 (\<lambda>_. 0)\<rparr>)"
    by (simp add: session_f_state session_f_realloc)
  have old: "block_size session_f 4096 = 8 \<and> \<not> block_is_free session_f 4096
      \<and> index_entries session_f = [4160] \<and> block_size session_f 4160 = 264"
    by (simp add: session_f_index)
  have new: "\<not> block_is_free (snd (mm_realloc 4120 100 session_f)) 4160
      \<and> block_size (snd (mm_realloc 4120 100 session_f)) 4160 = 104
      \<and> block_is_free (snd (mm_realloc 4120 100 session_f)) 4096
      \<and> index_entries (snd (mm_realloc 4120 100 session_f)) = [4288]
      \<and> block_size (snd (mm_realloc 4120 100 session_f)) 4096 = 328"
    by (simp add: after index_entries_def block_size_def block_is_free_def session_f_headers)
  from before old new show ?thesis
    unfolding ob nb by (simp add: after)
qed

text \<open>
  What \<^verbatim>\<open>mm_realloc\<close> does before that last step holds in general. For a non-null
  \<open>p\<close> whose block has payload size \<open>oldSize\<close> and a request \<open>s > 0\<close>:
  \<^item> if \<open>s \<le> oldSize\<close>, \<^verbatim>\<open>mm_realloc(p, s)\<close> returns \<open>p\<close> and the state is unchanged;
  \<^item> if \<open>s > oldSize\<close> and the allocation fails (empty index, or a root block that is
    null or too small), it returns null and memory, hence the old block's header and
    payload, and the arena bounds are as before;
  \<^item> if \<open>s > oldSize\<close>, \<open>s \<le> SIZE_MAX - 40\<close>, the root block can hold the request,
    \<open>p\<close> lies inside the arena, the root block ends below the top of the address space
    and the blocks of the index are apart from the block of \<open>p\<close> and from the root block
    (\<open>realloc_ready\<close>), it returns the payload address of the root block, non-null, whose
    first \<open>oldSize\<close> bytes are the old payload's bytes, and the old block's \<^verbatim>\<open>is_free\<close>
    flag is set. This says nothing about the index, where session F goes wrong.
\<close>

theorem mm_realloc_behaviour:
  assumes "p \<noteq> 0" "s \<noteq> 0"
  shows "(s \<le> block_size st (p - sizeof_Block) \<longrightarrow> mm_realloc p s st = (p, st))
       \<and> (block_size st (p - sizeof_Block) < s
            \<and> (heap_count st = 0 \<or> heap st 0 = 0 \<or> block_size st (heap st 0) < ALIGN s) \<longrightarrow>
            fst (mm_realloc p s st) = 0
            \<and> mem (snd (mm_realloc p s st)) = mem st
            \<and> heap_start (snd (mm_realloc p s st)) = heap_start st
            \<and> heap_size (snd (mm_realloc p s st)) = heap_size st)
       \<and> (block_size st (p - sizeof_Block) < s
            \<and> 0 < heap_count st \<and> heap st 0 \<noteq> 0 \<and> ALIGN s \<le> block_size st (heap st 0)
            \<and> unat s + 39 < 2 ^ 64 \<and> realloc_ready st p \<longrightarrow>
            fst (mm_realloc p s st) = heap st 0 + sizeof_Block
            \<and> fst (mm_realloc p s st) \<noteq> 0
            \<and> (\<forall>k < unat (block_size st (p - sizeof_Block)).
                  mem (snd (mm_realloc p s st)) (unat (fst (mm_realloc p s st)) + k)
                  = mem st (unat p + k))
            \<and> block_is_free (snd (mm_realloc p s st)) (p - sizeof_Block))"
proof (intro conjI impI)
  assume "s \<le> block_size st (p - sizeof_Block)"
  then show "mm_realloc p s st = (p, st)"
    by (rule mm_realloc_keep [OF assms])
next
  assume a: "block_size st (p - sizeof_Block) < s
            \<and> (heap_count st = 0 \<or> heap st 0 = 0 \<or> block_size st (heap st 0) < ALIGN s)"
  then have grow: "block_size st (p - sizeof_Block) < s"
    and fail: "heap_count st = 0 \<or> heap st 0 = 0 \<or> block_size st (heap st 0) < ALIGN s"
    by simp_all
  have eq: "mm_realloc p s st = mm_malloc s st"
    by (simp add: mm_realloc_grow [OF assms grow] mm_malloc_fails(1) [OF assms(2) fail])
  show "fst (mm_realloc p s st) = 0" "mem (snd (mm_realloc p s st)) = mem st"
    "heap_start (snd (mm_realloc p s st)) = heap_start st"
    "heap_size (snd (mm_realloc p s st)) = heap_size st"
    by (simp_all add: eq mm_malloc_fails [OF assms(2) fail])
next
  assume a: "block_size st (p - sizeof_Block) < s
            \<and> 0 < heap_count st \<and> heap st 0 \<noteq> 0 \<and> ALIGN s \<le> block_size st (heap st 0)
            \<and> unat s + 39 < 2 ^ 64 \<and> realloc_ready st p"
  then have h: "block_size st (p - sizeof_Block) < s" "0 < heap_count st" "heap st 0 \<noteq> 0"
    "ALIGN s \<le> block_size st (heap st 0)" "unat s + 39 < 2 ^ 64" "realloc_ready st p"
    by simp_all
  note r = mm_realloc_moves [OF assms h]
  show "fst (mm_realloc p s st) = heap st 0 + sizeof_Block" by (rule r(1))
  show "fst (mm_realloc p s st) \<noteq> 0" by (rule r(2))
  show "\<forall>k < unat (block_size st (p - sizeof_Block)).
          mem (snd (mm_realloc p s st)) (unat (fst (mm_realloc p s st)) + k) = mem st (unat p + k)"
    by (rule r(3))
  show "block_is_free (snd (mm_realloc p s st)) (p - sizeof_Block)" by (rule r(4))
qed

theorem mm_realloc_behaviour_witness:
  "(4120 :: ptr) \<noteq> 0 \<and> (50 :: size_t) \<noteq> 0 \<and> (200 :: size_t) \<noteq> 0 \<and> (2000 :: size_t) \<noteq> 0
   \<and> block_size session_d (4120 - sizeof_Block) = 104
   \<and> 0 < heap_count session_d \<and> heap session_d 0 = 4224 \<and> block_size session_d 4224 = 872
   \<and> ALIGN 200 = 200 \<and> ALIGN 2000 = 2000 \<and> realloc_ready session_d 4120
   \<and> mm_realloc 4120 50 session_d = (4120, session_d)
   \<and> fst (mm_realloc 4120 2000 session_d) = 0
   \<and> mem (snd (mm_realloc 4120 2000 session_d)) = mem session_d
   \<and> fst (mm_realloc 4120 200 session_d) = 4248
   \<and> mem (snd (mm_realloc 4120 200 session_d)) (4248 + 5) = 0x5A
   \<and> block_is_free (snd (mm_realloc 4120 200 session_d)) 4096"
proof -
  have nz: "(4120 :: ptr) \<noteq> 0" "(50 :: size_t) \<noteq> 0" "(200 :: size_t) \<noteq> 0" "(2000 :: size_t) \<noteq> 0"
    by simp_all
  have al: "ALIGN 200 = 200" "ALIGN 2000 = 2000"
    by (simp_all add: ALIGN_def)
  have ob: "(4120 :: ptr) - sizeof_Block = 4096"
    by (simp add: sizeof_Block_def)
  have keep: "mm_realloc 4120 50 session_d = (4120, session_d)"
    using mm_realloc_behaviour [OF nz(1,2), of session_d]
    by (simp add: ob session_d_index)
  have fail: "fst (mm_realloc 4120 2000 session_d) = 0
      \<and> mem (snd (mm_realloc 4120 2000 session_d)) = mem session_d"
    using mm_realloc_behaviour [OF nz(1,4), of session_d]
    by (simp add: ob al session_d_index)
  have move: "fst (mm_realloc 4120 200 session_d) = 4248
      \<and> (\<forall>k < 104. mem (snd (mm_realloc 4120 200 session_d)) (4248 + k) = mem session_d (4120 + k))
      \<and> block_is_free (snd (mm_realloc 4120 200 session_d)) 4096"
    using mm_realloc_behaviour [OF nz(1,3), of session_d]
    by (clarsimp simp: ob al session_d_index session_d_ready sizeof_Block_def)
  then have "k < 104 \<Longrightarrow>
      mem (snd (mm_realloc 4120 200 session_d)) (4248 + k) = mem session_d (4120 + k)" for k
    by blast
  from this [of 5]
  have "mem (snd (mm_realloc 4120 200 session_d)) (4248 + 5) = mem session_d (4120 + 5)"
    by simp
  then have byte: "mem (snd (mm_realloc 4120 200 session_d)) (4248 + 5) = 0x5A"
    by (simp add: session_d_index)
  from keep fail move byte al show ?thesis
    by (simp add: ob session_d_index session_d_ready)
qed

subsection \<open>C6\<close>




subsection \<open>C7\<close>

text \<open>
  C7. With an empty index and \<^verbatim>\<open>sbrk\<close> returning a non-null region of 1024 bytes that lies
  in the address space, after \<^verbatim>\<open>mm_init(1024)\<close> the call
  \<^verbatim>\<open>mm_malloc(1024 - mm_metadata_size())\<close> returns a non-null pointer and the
  \<^verbatim>\<open>mm_malloc(1)\<close> that follows returns null.
\<close>

theorem exact_capacity_scenario:
  assumes "heap_count st = 0" "brk \<noteq> 0" "unat brk + 1024 \<le> 2 ^ 64"
  shows "fst (mm_malloc (1024 - mm_metadata_size) (mm_init 1024 brk st)) \<noteq> 0
       \<and> fst (mm_malloc 1 (snd (mm_malloc (1024 - mm_metadata_size) (mm_init 1024 brk st)))) = 0"
proof -
  let ?st1 = "mm_init 1024 brk st"
  have brk: "brk \<noteq> - 1" using assms(3) by (auto simp: unsigned_minus_1_eq_mask mask_eq_exp_minus_1)
  have ok: "\<not> (1024 :: size_t) < sizeof_Block" by (simp add: sizeof_Block_def)
  have req: "1024 - mm_metadata_size = (1000 :: size_t)" "ALIGN 1000 = 1000"
    by (simp_all add: mm_metadata_size_def sizeof_Block_def ALIGN_def)
  have init: "heap_count ?st1 = 1" "heap ?st1 0 = brk" "block_size ?st1 brk = 1000"
    using assms(1) mm_init_ok_header(1) [OF ok brk, of st]
    by (simp_all add: mm_init_ok [OF ok brk] heap_insert_empty sizeof_Block_def)
  have c1: "(1000 :: size_t) \<noteq> 0" "0 < heap_count ?st1" "heap ?st1 0 \<noteq> 0"
    "\<not> block_size ?st1 (heap ?st1 0) < ALIGN 1000"
    "\<not> block_size ?st1 (heap ?st1 0) \<ge> ALIGN 1000 + sizeof_Block + ALIGN 1"
    using assms(2) by (simp_all add: init req sizeof_Block_def)
  have "unat brk + 24 < 2 ^ 64" using assms(3) by simp
  then have "unat (brk + sizeof_Block) = unat brk + 24" by (rule unat_payload)
  then have "brk + sizeof_Block \<noteq> 0" by (metis add_is_0 unat_0 zero_neq_numeral)
  then have first: "fst (mm_malloc 1000 ?st1) \<noteq> 0"
    by (simp add: mm_malloc_fits_ptr [OF c1(1-4)] init)
  have "heap_count (snd (mm_malloc 1000 ?st1)) = 0"
    by (simp add: mm_malloc_no_split [OF c1] heap_extract_min_frame init)
  then have "mm_malloc 1 (snd (mm_malloc 1000 ?st1)) = (0, snd (mm_malloc 1000 ?st1))"
    by (simp add: mm_malloc_empty)
  with first show ?thesis by (simp add: req)
qed

theorem exact_capacity_scenario_witness:
  "heap_count (initial_state (\<lambda>_. 0)) = 0 \<and> (4096 :: ptr) \<noteq> 0
   \<and> unat (4096 :: ptr) + 1024 \<le> 2 ^ 64
   \<and> fst (mm_malloc (1024 - mm_metadata_size) arena_1024) \<noteq> 0
   \<and> fst (mm_malloc 1 (snd (mm_malloc (1024 - mm_metadata_size) arena_1024))) = 0"
  using exact_capacity_scenario [of "initial_state (\<lambda>_. 0)" 4096]
  by (simp add: arena_1024_def initial_state_def)

subsection \<open>C8\<close>

text \<open>
  C8 (amended). \<^verbatim>\<open>mm_init(capacity)\<close> fails without touching the state exactly when
  \<open>capacity\<close> is less than one header (24 bytes); a capacity of exactly one header is
  accepted. When \<^verbatim>\<open>sbrk\<close> refuses, only \<open>heap_start\<close> is overwritten with
  \<^verbatim>\<open>(void*)-1\<close>. Otherwise, from an empty index, the arena is \<open>capacity\<close> bytes at
  the address \<^verbatim>\<open>sbrk\<close> returned, its single initial block has payload size
  \<open>capacity - 24\<close>, is flagged free and is the only entry of the index.
\<close>

theorem mm_init_result:
  assumes "heap_count st = 0"
  shows "(memory_size < sizeof_Block \<longrightarrow> mm_init memory_size brk st = st)
       \<and> (\<not> memory_size < sizeof_Block \<and> brk = - 1 \<longrightarrow>
            mm_init memory_size brk st = st\<lparr>heap_start := - 1\<rparr>)
       \<and> (\<not> memory_size < sizeof_Block \<and> brk \<noteq> - 1 \<longrightarrow>
            heap_start (mm_init memory_size brk st) = brk
            \<and> heap_size (mm_init memory_size brk st) = memory_size
            \<and> index_entries (mm_init memory_size brk st) = [brk]
            \<and> block_size (mm_init memory_size brk st) brk = memory_size - sizeof_Block
            \<and> block_is_free (mm_init memory_size brk st) brk)"
proof (intro conjI impI)
  assume "\<not> memory_size < sizeof_Block \<and> brk \<noteq> - 1"
  then have ok: "\<not> memory_size < sizeof_Block" "brk \<noteq> - 1" by simp_all
  show "index_entries (mm_init memory_size brk st) = [brk]"
    using assms by (simp add: mm_init_ok [OF ok] heap_insert_empty index_entries_def)
qed (simp_all add: mm_init_too_small mm_init_sbrk_failed mm_init_ok_header)

theorem mm_init_result_witness:
  "heap_count (initial_state (\<lambda>_. 0)) = 0
   \<and> \<not> (1024 :: size_t) < sizeof_Block \<and> (0x1000 :: ptr) \<noteq> - 1
   \<and> heap_size (mm_init 1024 0x1000 (initial_state (\<lambda>_. 0))) = 1024
   \<and> index_entries (mm_init 1024 0x1000 (initial_state (\<lambda>_. 0))) = [0x1000]
   \<and> block_size (mm_init 1024 0x1000 (initial_state (\<lambda>_. 0))) 0x1000 = 1000
   \<and> (8 :: size_t) < sizeof_Block
   \<and> mm_init 8 0x1000 (initial_state (\<lambda>_. 0)) = initial_state (\<lambda>_. 0)"
  using mm_init_result [of "initial_state (\<lambda>_. 0)" 1024 "0x1000"]
        mm_init_result [of "initial_state (\<lambda>_. 0)" 8 "0x1000"]
  by (simp add: initial_state_def sizeof_Block_def)

text \<open>
  C8 as stated fails at \<open>capacity = 24\<close>: that is less than one header plus one byte,
  yet \<^verbatim>\<open>mm_init\<close> succeeds and creates an arena whose only block has payload size 0.
\<close>

theorem mm_init_header_only_counterexample:
  "(24 :: size_t) < sizeof_Block + 1
   \<and> mm_init 24 0x1000 (initial_state (\<lambda>_. 0)) \<noteq> initial_state (\<lambda>_. 0)
   \<and> heap_start (mm_init 24 0x1000 (initial_state (\<lambda>_. 0))) = 0x1000
   \<and> heap_size (mm_init 24 0x1000 (initial_state (\<lambda>_. 0))) = 24
   \<and> index_entries (mm_init 24 0x1000 (initial_state (\<lambda>_. 0))) = [0x1000]
   \<and> block_size (mm_init 24 0x1000 (initial_state (\<lambda>_. 0))) 0x1000 = 0"
proof -
  have ok: "\<not> (24 :: size_t) < sizeof_Block" "(0x1000 :: ptr) \<noteq> - 1"
    by (simp_all add: sizeof_Block_def)
  have "heap_size (mm_init 24 0x1000 (initial_state (\<lambda>_. 0))) \<noteq> heap_size (initial_state (\<lambda>_. 0))"
    by (simp add: mm_init_ok_header [OF ok]) (simp add: initial_state_def)
  then have "mm_init 24 0x1000 (initial_state (\<lambda>_. 0)) \<noteq> initial_state (\<lambda>_. 0)"
    by auto
  moreover have "index_entries (mm_init 24 0x1000 (initial_state (\<lambda>_. 0))) = [0x1000]"
    by (simp add: mm_init_ok [OF ok] heap_insert_empty index_entries_def initial_state_def)
  ultimately show ?thesis
    by (simp add: mm_init_ok_header [OF ok]) (simp add: sizeof_Block_def)
qed

subsection \<open>C9\<close>



subsection \<open>C10\<close>



end
